theory Spec2Isabelle
  imports Complex_Main "HOL-Library.AList" "HOL-Library.Multiset" "HOL-Library.Product_Lexorder"
    "HOL-Library.Word"
begin

section \<open>Data model of the host screen (GamePlay.tsx)\<close>

text \<open>
  The interfaces \<open>Question\<close> and \<open>Player\<close> of GamePlay.tsx, and the columns of a
  \<open>game_answers\<close> row that the host screen reads. Identifiers are strings. A field that
  can be absent in the source (\<open>totalCompletionTime?\<close>, a null \<open>time_taken\<close>) is an
  option. Counts, indices and scores are JavaScript numbers that only ever hold integers
  here, so they are \<open>int\<close>.
\<close>

record quiz_option =
  o_id :: string
  o_text :: string
  o_is_correct :: bool

record question =
  q_id :: string
  q_text :: string
  time_limit :: int
  options :: "quiz_option list"

record player =
  p_id :: string
  name :: string
  score :: int
  avatar :: string
  totalCompletionTime :: "int option"

record game_answer =
  session_id :: string
  player_id :: string
  question_index :: int
  option_id :: string
  is_correct :: bool
  time_taken :: "int option"

text \<open>
  The interval behind \<open>timerRef\<close>: the question it was started for and the closure
  variable \<open>currentTime\<close>. A number that the source can leave non-numeric (an omitted
  argument is \<open>undefined\<close>, and \<open>undefined - 1\<close> is \<open>NaN\<close>) is an \<open>int option\<close>, with
  \<open>None\<close> for the non-numeric value.
\<close>

record timer =
  t_questionIndex :: int
  t_currentTime :: "int option"

text \<open>
  The row of \<open>game_sessions\<close> that the host writes: \<open>status\<close> and
  \<open>current_question_index\<close> (nullable).
\<close>

record game_session =
  status :: string
  current_question_index :: "int option"

text \<open>
  The broadcast events of the two channels of a game, with the payload fields that the
  host screen writes or reads: \<open>answer_submitted\<close> (question index, option id),
  \<open>question_started\<close>, \<open>question_changed\<close> and \<open>time_up\<close> (question index),
  \<open>game_started\<close> and \<open>game_ended\<close>.
\<close>

datatype broadcast =
  AnswerSubmitted int string
| QuestionStarted int
| QuestionChanged int
| GameStarted
| TimeUp int
| GameEnded

text \<open>
  The React state of the \<open>GamePlay\<close> component together with the two tables it reads
  and writes and the broadcasts it has sent, oldest first. \<open>answerStats\<close> is a
  JavaScript object used as a dictionary with string keys; it is an association list in
  insertion order. \<open>pollingFor\<close> is the question the polling interval behind
  \<open>pollingRef\<close> was started for.
\<close>

record host =
  sessionId :: string
  questions :: "question list"
  players :: "player list"
  currentQuestionIndex :: int
  timeLeft :: "int option"
  showResults :: bool
  gameEnded :: bool
  isCalculatingResults :: bool
  answerStats :: "(string \<times> int) list"
  totalAnswers :: int
  timerRef :: "timer option"
  pollingFor :: "int option"
  db_session :: game_session
  db_answers :: "game_answer list"
  sent :: "broadcast list"

text \<open>
  A function of the component is created anew at every render and reads the state
  variables as they were at that render, whenever it runs; only state updates, refs and
  the tables act on the current state. A render is what such a function reads of the
  state: \<open>currentQuestionIndex\<close> and \<open>questions\<close>.
\<close>

record render =
  seenIndex :: int
  seenQuestions :: "question list"

text \<open>The render that shows a given state.\<close>

definition renderOf :: "host \<Rightarrow> render" where
  "renderOf s = \<lparr>seenIndex = currentQuestionIndex s, seenQuestions = questions s\<rparr>"

text \<open>
  The first render of the component, with the \<open>useState\<close> defaults. The effect that
  runs \<open>fetchGameData\<close>, \<open>subscribeToAnswers\<close> and the subscription of the sync
  channel depends on \<open>sessionId\<close> alone, so it runs once, after this render, and the
  functions and handlers it uses are those of this render for as long as the screen is
  mounted.
\<close>

definition mountRender :: render where
  "mountRender = \<lparr>seenIndex = - 1, seenQuestions = []\<rparr>"

section \<open>Array access and dictionary keys\<close>

text \<open>
  \<open>questions[i]\<close> in JavaScript is \<open>undefined\<close> outside the array (and for a negative
  index); \<open>nth_opt\<close> returns \<open>None\<close> there.
\<close>

definition nth_opt :: "'a list \<Rightarrow> int \<Rightarrow> 'a option" where
  "nth_opt xs i = (if 0 \<le> i \<and> i < int (length xs) then Some (xs ! nat i) else None)"

text \<open>Decimal rendering of an integer inside a template literal.\<close>

definition digit_char :: "nat \<Rightarrow> char" where
  "digit_char d = ''0123456789'' ! d"

function show_nat :: "nat \<Rightarrow> string" where
  "show_nat n = (if n < 10 then [digit_char n] else show_nat (n div 10) @ [digit_char (n mod 10)])"
  by pat_completeness auto
termination
  by (relation "measure (\<lambda>n. n)") auto

declare show_nat.simps [simp del]

definition show_int :: "int \<Rightarrow> string" where
  "show_int i = (if i < 0 then CHR ''-'' # show_nat (nat (- i)) else show_nat (nat i))"

text \<open>The template literal \<open>`q${questionIndex}_${option.id}`\<close>.\<close>

definition uniqueKey :: "int \<Rightarrow> string \<Rightarrow> string" where
  "uniqueKey questionIndex oid = CHR ''q'' # show_int questionIndex @ CHR ''_'' # oid"

text \<open>\<open>obj.hasOwnProperty(k)\<close> and \<open>obj[k] || 0\<close> on a dictionary object.\<close>

definition hasOwnProperty :: "(string \<times> int) list \<Rightarrow> string \<Rightarrow> bool" where
  "hasOwnProperty obj k = (map_of obj k \<noteq> None)"

definition get_or_0 :: "(string \<times> int) list \<Rightarrow> string \<Rightarrow> int" where
  "get_or_0 obj k = (case map_of obj k of None \<Rightarrow> 0 | Some v \<Rightarrow> v)"

section \<open>Scoring (subscribeToAnswers, calculateScore)\<close>

definition calculateScore :: "int \<Rightarrow> int" where
  "calculateScore secondsLeft = 100"

text \<open>
  The counter update shared by the two notification handlers of \<open>subscribeToAnswers\<close>:
  a known key is incremented, an unknown key only logs a warning.
\<close>

definition bumpStat :: "string \<Rightarrow> (string \<times> int) list \<Rightarrow> (string \<times> int) list" where
  "bumpStat k prevStats =
     (if hasOwnProperty prevStats k then AList.update k (get_or_0 prevStats k + 1) prevStats
      else prevStats)"

text \<open>
  The \<open>postgres_changes\<close> INSERT handler of \<open>subscribeToAnswers\<close>, as a function of
  the render it was created in: a correct answer adds \<open>calculateScore(0)\<close> to the
  matching player (a functional update of the current player list), and an answer whose
  question index is the \<open>currentQuestionIndex\<close> of that render bumps the tally (and
  schedules \<open>refreshAnswerStats\<close> of that render for 50 ms later, which is not part of
  this function). The handler in use is the one of the first render.
\<close>

definition addPoints :: "game_answer \<Rightarrow> player list \<Rightarrow> player list" where
  "addPoints answer current =
     map (\<lambda>player. if p_id player = player_id answer
                    then player\<lparr>score := score player + calculateScore 0\<rparr>
                    else player) current"

definition onAnswerInsertIn :: "render \<Rightarrow> game_answer \<Rightarrow> host \<Rightarrow> host" where
  "onAnswerInsertIn r answer s =
     (let s1 = (if is_correct answer then s\<lparr>players := addPoints answer (players s)\<rparr> else s)
      in if question_index answer = seenIndex r
         then s1\<lparr>answerStats :=
                    bumpStat (uniqueKey (question_index answer) (option_id answer)) (answerStats s1),
                  totalAnswers := totalAnswers s1 + 1\<rparr>
         else s1)"

definition onAnswerInsert :: "game_answer \<Rightarrow> host \<Rightarrow> host" where
  "onAnswerInsert answer s = onAnswerInsertIn mountRender answer s"

text \<open>The notifications delivered so far, handled in order of delivery.\<close>

definition deliver :: "game_answer list \<Rightarrow> host \<Rightarrow> host" where
  "deliver evs s = foldl (\<lambda>st a. onAnswerInsert a st) s evs"

text \<open>
  The score of section 4.6 of the specification, in its words: 100 times the number of
  accepted answer events of the player with \<open>is_correct\<close> set.
\<close>

definition spec_score :: "game_answer list \<Rightarrow> string \<Rightarrow> int" where
  "spec_score events pid =
     100 * int (length (filter (\<lambda>a. is_correct a \<and> player_id a = pid) events))"

text \<open>The number of delivered notifications that credit a player.\<close>

definition credited :: "game_answer list \<Rightarrow> string \<Rightarrow> nat" where
  "credited evs pid = length (filter (\<lambda>a. is_correct a \<and> player_id a = pid) evs)"

text \<open>One player \<open>p1\<close> on the lobby screen, and one correct answer of that player.\<close>

definition demo_player :: player where
  "demo_player = \<lparr>p_id = ''p1'', name = ''Ann'', score = 0, avatar = '''',
                  totalCompletionTime = Some 0\<rparr>"

definition demo_host :: host where
  "demo_host = \<lparr>sessionId = ''s'', questions = [], players = [demo_player], currentQuestionIndex = - 1,
     timeLeft = Some 0, showResults = False, gameEnded = False, isCalculatingResults = False,
     answerStats = [], totalAnswers = 0, timerRef = None, pollingFor = None,
     db_session = \<lparr>status = ''waiting'', current_question_index = None\<rparr>, db_answers = [],
     sent = []\<rparr>"

definition demo_answer :: game_answer where
  "demo_answer = \<lparr>session_id = ''s'', player_id = ''p1'', question_index = 0,
                  option_id = ''x'', is_correct = True, time_taken = Some 3\<rparr>"

section \<open>Leaderboards (calculatePlayerCompletionTimes, sortedPlayers)\<close>

text \<open>\<open>x || 0\<close> on a number that may be missing.\<close>

definition num_or_0 :: "int option \<Rightarrow> int" where
  "num_or_0 t = (case t of None \<Rightarrow> 0 | Some v \<Rightarrow> v)"

text \<open>
  The loop body of \<open>calculatePlayerCompletionTimes\<close>: a missing (or zero) entry is set
  to 0, then the row's \<open>time_taken || 0\<close> is added.
\<close>

definition addTime :: "(string \<times> int) list \<Rightarrow> game_answer \<Rightarrow> (string \<times> int) list" where
  "addTime playerCompletionTimes answer =
     (let playerId = player_id answer;
          t1 = (if get_or_0 playerCompletionTimes playerId = 0
                then AList.update playerId 0 playerCompletionTimes
                else playerCompletionTimes)
      in AList.update playerId (get_or_0 t1 playerId + num_or_0 (time_taken answer)) t1)"

text \<open>
  \<open>calculatePlayerCompletionTimes\<close>: the rows of the session are read from
  \<open>game_answers\<close> (the inner join with \<open>game_players\<close> keeps the rows whose player row
  exists, which the foreign key gives for every row), the times are summed per player and
  written into the player state.
\<close>

definition calculatePlayerCompletionTimes :: "host \<Rightarrow> host" where
  "calculatePlayerCompletionTimes s =
     (let gameAnswers = filter (\<lambda>a. session_id a = sessionId s) (db_answers s);
          playerCompletionTimes = foldl addTime [] gameAnswers
      in s\<lparr>players :=
             map (\<lambda>player. player\<lparr>totalCompletionTime :=
                                       Some (get_or_0 playerCompletionTimes (p_id player))\<rparr>)
                 (players s)\<rparr>)"

text \<open>
  The comparator passed to \<open>sort\<close> on the game-over screen and on the mid-game
  leaderboard (the same function text in both places).
\<close>

definition comparePlayers :: "player \<Rightarrow> player \<Rightarrow> int" where
  "comparePlayers a b =
     (if score b \<noteq> score a then score b - score a
      else num_or_0 (totalCompletionTime a) - num_or_0 (totalCompletionTime b))"

text \<open>
  \<open>Array.prototype.sort\<close> with a comparator. ECMAScript requires the sort to be stable,
  which for a consistent comparator fixes the result; it is computed here by insertion,
  each element going in front of the first later element it does not compare greater
  than.
\<close>

fun insert_by :: "('a \<Rightarrow> 'a \<Rightarrow> int) \<Rightarrow> 'a \<Rightarrow> 'a list \<Rightarrow> 'a list" where
  "insert_by cmp x [] = [x]"
| "insert_by cmp x (y # ys) = (if cmp x y \<le> 0 then x # y # ys else y # insert_by cmp x ys)"

definition sort_by :: "('a \<Rightarrow> 'a \<Rightarrow> int) \<Rightarrow> 'a list \<Rightarrow> 'a list" where
  "sort_by cmp xs = foldr (insert_by cmp) xs []"

text \<open>\<open>sortedPlayers\<close> of the game-over screen, which renders one row per element.\<close>

definition sortedPlayers :: "player list \<Rightarrow> player list" where
  "sortedPlayers ps = sort_by comparePlayers ps"

text \<open>The mid-game leaderboard: the same sort followed by \<open>slice(0, 5)\<close>.\<close>

definition midGameLeaderboard :: "player list \<Rightarrow> player list" where
  "midGameLeaderboard ps = take 5 (sort_by comparePlayers ps)"



text \<open>
  The sort key that the comparator amounts to, under the lexicographic order on pairs.
\<close>

definition playerKey :: "player \<Rightarrow> int \<times> int" where
  "playerKey p = (- score p, num_or_0 (totalCompletionTime p))"

text \<open>Six players as the host state holds them after a few questions.\<close>

definition mk_player :: "string \<Rightarrow> int \<Rightarrow> int \<Rightarrow> player" where
  "mk_player i sc t = \<lparr>p_id = i, name = i, score = sc, avatar = '''',
                        totalCompletionTime = Some t\<rparr>"

definition six_players :: "player list" where
  "six_players = [mk_player ''a'' 100 9, mk_player ''b'' 300 20, mk_player ''c'' 100 4,
                  mk_player ''d'' 0 0, mk_player ''e'' 300 20, mk_player ''f'' 200 7]"

section \<open>Tally (startTimer, refreshAnswerStats, broadcast handlers, results view)\<close>

text \<open>
  The dictionary that \<open>startTimer\<close> and \<open>refreshAnswerStats\<close> build first: one key per
  option of the question, each with count 0.
\<close>

definition freshStats :: "int \<Rightarrow> question \<Rightarrow> (string \<times> int) list" where
  "freshStats questionIndex currentQ =
     foldl (\<lambda>stats opt. AList.update (uniqueKey questionIndex (o_id opt)) 0 stats) []
       (options currentQ)"

text \<open>
  The counting loop of \<open>refreshAnswerStats\<close> and the total it reports. Under the
  \<open>hasOwnProperty\<close> guard, \<open>stats[uniqueKey]++\<close> is the update of \<open>bumpStat\<close>; a row
  whose option is not one of the question's only logs a warning. The total is
  \<open>answers.length\<close>.
\<close>

definition tally :: "int \<Rightarrow> question \<Rightarrow> game_answer list \<Rightarrow> (string \<times> int) list \<times> int" where
  "tally questionIndex currentQ answers =
     (foldl (\<lambda>stats answer. bumpStat (uniqueKey questionIndex (option_id answer)) stats)
        (freshStats questionIndex currentQ) answers,
      int (length answers))"

text \<open>
  The query of \<open>refreshAnswerStats\<close>: the rows of \<open>game_answers\<close> with this session id
  and question index.
\<close>

definition select_answers :: "host \<Rightarrow> int \<Rightarrow> game_answer list" where
  "select_answers s questionIndex =
     filter (\<lambda>a. session_id a = sessionId s \<and> question_index a = questionIndex) (db_answers s)"

text \<open>
  \<open>refreshAnswerStats(questionIndex)\<close> of a render: nothing happens for a negative
  index or an index without a question in the \<open>questions\<close> of that render; otherwise
  the tally is rebuilt from the rows stored now and written to the state only if
  \<open>questionIndex\<close> is the \<open>currentQuestionIndex\<close> of that render. (A failed query
  returns before any state is written; the table is part of the state here, so the query
  succeeds.)
\<close>

definition refreshAnswerStatsIn :: "render \<Rightarrow> int \<Rightarrow> host \<Rightarrow> host" where
  "refreshAnswerStatsIn r questionIndex s =
     (if questionIndex < 0 then s
      else case nth_opt (seenQuestions r) questionIndex of
        None \<Rightarrow> s
      | Some currentQ \<Rightarrow>
          (let (stats, totalCount) = tally questionIndex currentQ (select_answers s questionIndex)
           in if questionIndex = seenIndex r
              then s\<lparr>answerStats := stats, totalAnswers := totalCount\<rparr>
              else s))"

text \<open>
  \<open>refreshAnswerStats\<close> of the render that shows the state. This is how the backup
  refresh runs it: its effect depends on \<open>currentQuestionIndex\<close> and \<open>showResults\<close>,
  so its interval is created again, by the render that shows the new state, whenever the
  question on screen changes.
\<close>

definition refreshAnswerStats :: "int \<Rightarrow> host \<Rightarrow> host" where
  "refreshAnswerStats questionIndex s = refreshAnswerStatsIn (renderOf s) questionIndex s"

text \<open>
  The broadcast handlers of the host screen, as functions of the render they were
  created in. \<open>answer_submitted\<close> bumps the counters (functional updates of the current
  tally) when the payload's question index is the \<open>currentQuestionIndex\<close> of that
  render; \<open>question_started\<close> calls \<open>refreshAnswerStats()\<close> under the same test;
  \<open>question_changed\<close> calls \<open>refreshAnswerStats()\<close> (100 ms later) without reading the
  payload. \<open>refreshAnswerStats()\<close> without an argument refreshes the
  \<open>currentQuestionIndex\<close> of the render. The other events have no handler on the host
  screen.
\<close>

fun consume :: "render \<Rightarrow> broadcast \<Rightarrow> host \<Rightarrow> host" where
  "consume r (AnswerSubmitted qi oid) s =
     (if qi = seenIndex r
      then s\<lparr>answerStats := bumpStat (uniqueKey qi oid) (answerStats s),
             totalAnswers := totalAnswers s + 1\<rparr>
      else s)"
| "consume r (QuestionStarted qi) s =
     (if qi = seenIndex r then refreshAnswerStatsIn r (seenIndex r) s else s)"
| "consume r (QuestionChanged qi) s = refreshAnswerStatsIn r (seenIndex r) s"
| "consume r GameStarted s = s"
| "consume r (TimeUp qi) s = s"
| "consume r GameEnded s = s"

text \<open>
  The handlers in use: both subscriptions are made by the effect that runs once, so
  they are the handlers of the first render.
\<close>

definition onBroadcast :: "broadcast \<Rightarrow> host \<Rightarrow> host" where
  "onBroadcast e s = consume mountRender e s"

text \<open>The tally state of the host: the counters and the total.\<close>

definition tally_state :: "host \<Rightarrow> (string \<times> int) list \<times> int" where
  "tally_state s = (answerStats s, totalAnswers s)"

text \<open>The sum of the counters, \<open>sum(tally.counts.values())\<close>.\<close>

definition counts_sum :: "(string \<times> int) list \<Rightarrow> int" where
  "counts_sum stats = sum_list (map snd stats)"

text \<open>Whether a stored row names one of the question's options.\<close>

definition known_option :: "question \<Rightarrow> game_answer \<Rightarrow> bool" where
  "known_option currentQ a = (option_id a \<in> set (map o_id (options currentQ)))"

text \<open>
  The arithmetic of the results view is done on IEEE 754 doubles. A finite double is
  written \<open>F64 m e\<close> and stands for \<open>m * 2 ^ e\<close>; the other values are \<open>NaN\<close> and the
  two infinities. Counts are integers far below \<open>2 ^ 53\<close>, which doubles hold exactly, and
  a quotient or a product is the double nearest to the exact result, a tie going to the
  even significand. The exponent range is not limited here: the numbers of the results
  view are far from overflow and underflow.
\<close>

datatype f64 = F64 int int | F64_NaN | F64_PosInf | F64_NegInf

text \<open>The number of binary digits of a natural number.\<close>

fun bits :: "nat \<Rightarrow> nat" where
  "bits n = (if n = 0 then 0 else Suc (bits (n div 2)))"

declare bits.simps [simp del]

text \<open>
  For positive \<open>n\<close> and \<open>d\<close>: whether \<open>2 ^ k \<le> n / d\<close>, and the binary exponent of
  \<open>n / d\<close>, the \<open>e\<close> with \<open>2 ^ e \<le> n / d < 2 ^ (e + 1)\<close>.
\<close>

definition pow2_le :: "int \<Rightarrow> nat \<Rightarrow> nat \<Rightarrow> bool" where
  "pow2_le k n d = (if 0 \<le> k then d * 2 ^ nat k \<le> n else d \<le> n * 2 ^ nat (- k))"

definition binexp :: "nat \<Rightarrow> nat \<Rightarrow> int" where
  "binexp n d = (let k = int (bits n) - int (bits d) in if pow2_le k n d then k else k - 1)"

text \<open>\<open>n / d\<close> rounded to the nearest integer, a tie going to the even one.\<close>

definition round_even :: "nat \<Rightarrow> nat \<Rightarrow> nat" where
  "round_even n d =
     (let q = n div d; r = n mod d
      in if 2 * r < d then q else if d < 2 * r then q + 1 else if even q then q else q + 1)"

text \<open>
  The double nearest to \<open>n / d\<close> (for \<open>d > 0\<close>), as significand and exponent: the
  significand has 53 binary digits, so the exponent is the binary exponent of \<open>n / d\<close>
  less 52.
\<close>

definition nearest :: "nat \<Rightarrow> nat \<Rightarrow> int \<times> int" where
  "nearest n d =
     (if n = 0 then (0, 0)
      else let e = binexp n d - 52
           in (int (if e \<le> 0 then round_even (n * 2 ^ nat (- e)) d
                    else round_even n (d * 2 ^ nat e)), e))"

definition f64_of_ratio :: "bool \<Rightarrow> nat \<Rightarrow> nat \<Rightarrow> f64" where
  "f64_of_ratio neg n d = (case nearest n d of (m, e) \<Rightarrow> F64 (if neg then - m else m) e)"

text \<open>
  \<open>a / b\<close> for two integers: division by 0 does not throw, it gives \<open>NaN\<close> for \<open>0 / 0\<close>
  and an infinity otherwise.
\<close>

definition f64_div :: "int \<Rightarrow> int \<Rightarrow> f64" where
  "f64_div a b =
     (if b = 0 then (if a = 0 then F64_NaN else if 0 < a then F64_PosInf else F64_NegInf)
      else f64_of_ratio ((a < 0) \<noteq> (b < 0)) (nat \<bar>a\<bar>) (nat \<bar>b\<bar>))"

text \<open>\<open>x * 100\<close>: the double nearest to the exact product.\<close>

fun f64_times100 :: "f64 \<Rightarrow> f64" where
  "f64_times100 (F64 m e) =
     (if 0 \<le> e then f64_of_ratio (m < 0) (nat \<bar>m\<bar> * 100 * 2 ^ nat e) 1
      else f64_of_ratio (m < 0) (nat \<bar>m\<bar> * 100) (2 ^ nat (- e)))"
| "f64_times100 F64_NaN = F64_NaN"
| "f64_times100 F64_PosInf = F64_PosInf"
| "f64_times100 F64_NegInf = F64_NegInf"

text \<open>
  \<open>Math.round(x)\<close>: the integer \<open>floor(x + 1/2)\<close>, computed exactly; \<open>NaN\<close> and the
  infinities are returned as they are.
\<close>

fun f64_round :: "f64 \<Rightarrow> f64" where
  "f64_round (F64 m e) =
     F64 (if 0 \<le> e then m * 2 ^ nat e else (2 * m + 2 ^ nat (- e)) div 2 ^ nat (1 - e)) 0"
| "f64_round F64_NaN = F64_NaN"
| "f64_round F64_PosInf = F64_PosInf"
| "f64_round F64_NegInf = F64_NegInf"

text \<open>The real number that a significand and an exponent stand for.\<close>

definition val :: "int \<times> int \<Rightarrow> real" where
  "val p = real_of_int (fst p) * 2 powr real_of_int (snd p)"

text \<open>
  The percentage of the results view:
  \<open>totalAnswers > 0 ? Math.round((answerCount / totalAnswers) * 100) : 0\<close>.
\<close>

definition percentage :: "int \<Rightarrow> int \<Rightarrow> f64" where
  "percentage cnt totalCount =
     (if totalCount > 0 then f64_round (f64_times100 (f64_div cnt totalCount)) else F64 0 0)"

definition answerCount :: "host \<Rightarrow> quiz_option \<Rightarrow> int" where
  "answerCount s opt = get_or_0 (answerStats s) (uniqueKey (currentQuestionIndex s) (o_id opt))"

definition displayedPercentage :: "host \<Rightarrow> quiz_option \<Rightarrow> f64" where
  "displayedPercentage s opt = percentage (answerCount s opt) (totalAnswers s)"

text \<open>
  The percentage of section 4.3 of the specification, in its words:
  \<open>round(100 * count / total)\<close>, and 0 for a total of 0.
\<close>

definition spec_percentage :: "int \<Rightarrow> int \<Rightarrow> int" where
  "spec_percentage cnt totalCount =
     (if totalCount = 0 then 0 else round (100 * real_of_int cnt / real_of_int totalCount))"

text \<open>
  A question with the options \<open>X\<close> (correct) and \<open>Y\<close>, a host showing it, and answer
  rows for it.
\<close>

definition xy_question :: question where
  "xy_question = \<lparr>q_id = ''q'', q_text = ''?'', time_limit = 30,
     options = [\<lparr>o_id = ''X'', o_text = ''x'', o_is_correct = True\<rparr>,
                \<lparr>o_id = ''Y'', o_text = ''y'', o_is_correct = False\<rparr>]\<rparr>"

definition mk_answer :: "string \<Rightarrow> string \<Rightarrow> bool \<Rightarrow> game_answer" where
  "mk_answer pid oid c = \<lparr>session_id = ''s'', player_id = pid, question_index = 0,
                          option_id = oid, is_correct = c, time_taken = Some 3\<rparr>"

definition xy_host :: "game_answer list \<Rightarrow> host" where
  "xy_host answers = demo_host\<lparr>questions := [xy_question], currentQuestionIndex := 0,
     answerStats := freshStats 0 xy_question, db_answers := answers\<rparr>"

text \<open>Scenario A of the specification: three players answer \<open>X\<close>, \<open>X\<close>, \<open>Y\<close>.\<close>

definition xxy_answers :: "game_answer list" where
  "xxy_answers = [mk_answer ''a'' ''X'' True, mk_answer ''b'' ''X'' True,
                  mk_answer ''c'' ''Y'' False]"

definition abc_players :: "player list" where
  "abc_players = [mk_player ''a'' 0 0, mk_player ''b'' 0 0, mk_player ''c'' 0 0]"

text \<open>Forty stored answers to the question: 23 for \<open>X\<close> and 17 for \<open>Y\<close>.\<close>

definition forty_answers :: "game_answer list" where
  "forty_answers = replicate 23 (mk_answer ''a'' ''X'' True)
                   @ replicate 17 (mk_answer ''b'' ''Y'' False)"

text \<open>A stored row whose option is not one of the question's.\<close>

definition stray_answer :: game_answer where
  "stray_answer = mk_answer ''a'' ''Z'' False"

section \<open>Timer and question progression (startTimer, startGame, nextQuestion, fetchGameData)\<close>

text \<open>
  \<open>startTimer(questionIndex, seconds)\<close> of a render: the running interval and the
  polling are cleared; without a question at \<open>questionIndex\<close> in the \<open>questions\<close> of
  that render the function returns; otherwise the tally is reset, \<open>timeLeft\<close> is set to
  \<open>seconds\<close>, polling starts, \<open>question_started\<close> is broadcast and a one-second
  interval is started whose closure variable \<open>currentTime\<close> starts at \<open>seconds\<close>.
  What the polling interval and the refresh scheduled for 200 ms later do when they fire
  is not part of this function; both test the \<open>currentQuestionIndex\<close> of the render
  against \<open>questionIndex\<close> first.
\<close>

definition startTimerIn :: "render \<Rightarrow> int \<Rightarrow> int option \<Rightarrow> host \<Rightarrow> host" where
  "startTimerIn r questionIndex seconds s =
     (let s1 = s\<lparr>timerRef := None, pollingFor := None\<rparr>
      in case nth_opt (seenQuestions r) questionIndex of
           None \<Rightarrow> s1
         | Some currentQ \<Rightarrow>
             s1\<lparr>timeLeft := seconds, showResults := False, isCalculatingResults := False,
                answerStats := freshStats questionIndex currentQ, totalAnswers := 0,
                pollingFor := Some questionIndex,
                sent := sent s1 @ [QuestionStarted questionIndex],
                timerRef := Some \<lparr>t_questionIndex = questionIndex, t_currentTime = seconds\<rparr>\<rparr>)"

text \<open>
  \<open>startTimer\<close> of a render that has the questions of the state, as in \<open>startGame\<close>
  and in the timeout of \<open>nextQuestion\<close>, which run from a view shown after the quiz was
  loaded.
\<close>

definition startTimer :: "int \<Rightarrow> int option \<Rightarrow> host \<Rightarrow> host" where
  "startTimer questionIndex seconds s = startTimerIn (renderOf s) questionIndex seconds s"

text \<open>
  One firing of the interval callback. Without a running interval nothing fires.
  \<open>currentTime -= 1\<close> keeps a non-numeric value non-numeric, and \<open>currentTime <= 0\<close> is
  false for it. At expiry the interval and the polling are cleared, \<open>time_up\<close> is
  broadcast and the results are being calculated.
\<close>

definition tick :: "host \<Rightarrow> host" where
  "tick s =
     (case timerRef s of
        None \<Rightarrow> s
      | Some t \<Rightarrow>
          (let currentTime = map_option (\<lambda>n. n - 1) (t_currentTime t);
               s1 = s\<lparr>timeLeft := currentTime,
                       timerRef := Some (t\<lparr>t_currentTime := currentTime\<rparr>)\<rparr>
           in if (case currentTime of None \<Rightarrow> False | Some n \<Rightarrow> n \<le> 0)
              then s1\<lparr>timerRef := None, pollingFor := None,
                      sent := sent s1 @ [TimeUp (t_questionIndex t)],
                      isCalculatingResults := True\<rparr>
              else s1))"

text \<open>
  The callback that the expiry schedules 500 ms later, for the render that called
  \<open>startTimer\<close>: \<open>refreshAnswerStats(questionIndex)\<close> of that render, then the results
  are shown.
\<close>

definition timeUpResults :: "render \<Rightarrow> int \<Rightarrow> host \<Rightarrow> host" where
  "timeUpResults r questionIndex s =
     (refreshAnswerStatsIn r questionIndex s)\<lparr>showResults := True,
                                               isCalculatingResults := False\<rparr>"

text \<open>
  \<open>startGame\<close>: refused without questions; otherwise the session row becomes active at
  question 0, the state moves to question 0 (the first tally is keyed by the bare option
  ids), \<open>game_started\<close> is broadcast and the timer of question 0 is started.
\<close>

definition startGame :: "host \<Rightarrow> host" where
  "startGame s =
     (case questions s of
        [] \<Rightarrow> s
      | q0 # _ \<Rightarrow>
          startTimer 0 (Some (time_limit q0))
            (s\<lparr>timerRef := None, pollingFor := None,
               db_session := \<lparr>status = ''active'', current_question_index = Some 0\<rparr>,
               currentQuestionIndex := 0, showResults := False, isCalculatingResults := False,
               answerStats := foldl (\<lambda>stats opt. AList.update (o_id opt) 0 stats) [] (options q0),
               totalAnswers := 0, sent := sent s @ [GameStarted]\<rparr>))"

text \<open>
  \<open>nextQuestion\<close> of a render, up to the timeout it schedules. The next index is one
  more than the \<open>currentQuestionIndex\<close> of that render. Past the last question the
  timers are cleared, the completion times are calculated, the session row is completed
  with a null index, \<open>game_ended\<close> is broadcast and the game-over screen is shown.
  Otherwise the session row and the state are set to the next index with the results
  hidden, and \<open>question_changed\<close> is broadcast. The function tests nothing else and has
  no error result; the results of the two table updates are not inspected.
\<close>

definition nextQuestionIn :: "render \<Rightarrow> host \<Rightarrow> host" where
  "nextQuestionIn r s =
     (let nextIndex = seenIndex r + 1
      in if nextIndex \<ge> int (length (seenQuestions r))
         then (calculatePlayerCompletionTimes (s\<lparr>timerRef := None, pollingFor := None\<rparr>))
                \<lparr>db_session := \<lparr>status = ''completed'', current_question_index = None\<rparr>,
                 sent := sent s @ [GameEnded], gameEnded := True\<rparr>
         else s\<lparr>pollingFor := None, timerRef := None,
                db_session := (db_session s)\<lparr>current_question_index := Some nextIndex\<rparr>,
                showResults := False, isCalculatingResults := False, timeLeft := Some 0,
                currentQuestionIndex := nextIndex,
                sent := sent s @ [QuestionChanged nextIndex]\<rparr>)"

text \<open>A click on the button of the view that shows the state.\<close>

definition nextQuestion :: "host \<Rightarrow> host" where
  "nextQuestion s = nextQuestionIn (renderOf s) s"

text \<open>
  The timeout that \<open>nextQuestion\<close> of a render schedules 100 ms later for \<open>nextIndex\<close>:
  \<open>startTimer(nextIndex, questions[nextIndex].time_limit)\<close>, with the \<open>questions\<close> of
  that render. It is scheduled only for an index below their number.
\<close>

definition nextQuestionTimeout :: "render \<Rightarrow> int \<Rightarrow> host \<Rightarrow> host" where
  "nextQuestionTimeout r nextIndex s =
     (case nth_opt (seenQuestions r) nextIndex of
        None \<Rightarrow> s
      | Some q \<Rightarrow> startTimerIn r nextIndex (Some (time_limit q)) s)"

text \<open>
  The screen shows the button that calls \<open>nextQuestion\<close> only on the results view:
  the game has not ended, a question is on screen, and \<open>showResults && timeLeft === 0\<close>.
\<close>

definition nextButtonShown :: "host \<Rightarrow> bool" where
  "nextButtonShown s =
     (\<not> gameEnded s \<and> currentQuestionIndex s \<noteq> - 1 \<and> showResults s \<and> timeLeft s = Some 0)"

text \<open>
  \<open>fetchGameData\<close> on a freshly mounted host screen, as after a reload. The React
  state starts from its \<open>useState\<close> defaults; the questions of the quiz and the players
  of the session are read again, every player with score 0 and completion time 0 (the
  state's lists stand for the stored ones). If the session row has a question index, it
  becomes the current one, and for an index inside the quiz the source calls
  \<open>startTimer(question.time_limit)\<close>: one argument, which \<open>startTimer\<close> receives as
  \<open>questionIndex\<close>, with \<open>seconds\<close> undefined. The \<open>startTimer\<close> called is the one of
  the first render, whose \<open>questions\<close> are still empty.
\<close>

definition fetchGameData :: "host \<Rightarrow> host" where
  "fetchGameData s =
     (let s0 = s\<lparr>players := map (\<lambda>p. p\<lparr>score := 0, totalCompletionTime := Some 0\<rparr>) (players s),
                 currentQuestionIndex := - 1, timeLeft := Some 0, showResults := False,
                 gameEnded := False, isCalculatingResults := False, answerStats := [],
                 totalAnswers := 0, timerRef := None, pollingFor := None\<rparr>
      in case current_question_index (db_session s0) of
           None \<Rightarrow> s0
         | Some i \<Rightarrow>
             (let s1 = s0\<lparr>currentQuestionIndex := i\<rparr>
              in case nth_opt (questions s1) i of
                   None \<Rightarrow> s1
                 | Some q \<Rightarrow> startTimerIn mountRender (time_limit q) None s1))"

text \<open>
  The deadline timer of section 4.2 of the specification, in its words: the remaining
  time is \<open>max(0, deadline - now)\<close> with \<open>deadline = question_started_at + time_limit\<close>.
\<close>

definition spec_remaining :: "int \<Rightarrow> int \<Rightarrow> int \<Rightarrow> int" where
  "spec_remaining question_started_at limit now = max 0 (question_started_at + limit - now)"

text \<open>A lobby with one 30-second question, and one with three questions.\<close>

definition one_question_lobby :: host where
  "one_question_lobby = demo_host\<lparr>questions := [xy_question]\<rparr>"

definition three_question_lobby :: host where
  "three_question_lobby = demo_host\<lparr>questions := [xy_question, xy_question, xy_question]\<rparr>"

text \<open>
  The results view of the first of three questions: the game is started from the lobby,
  the interval fires thirty times and the callback of the expiry shows the results.
\<close>

definition first_results :: host where
  "first_results =
     timeUpResults (renderOf three_question_lobby) 0 ((tick ^^ 30) (startGame three_question_lobby))"

section \<open>Post-game summary (fetchSummaryData)\<close>

text \<open>
  The results of JavaScript arithmetic that the summary can produce: a finite number,
  \<open>NaN\<close> or an infinity. Finite numbers are reals (the rounding of doubles is outside
  the model).
\<close>

datatype jsnum = Num real | NaN | PosInf | NegInf

text \<open>
  \<open>a / b\<close> for finite \<open>a\<close> and a finite \<open>b\<close> that is not negative zero (the divisors of
  the summary are lengths and their products): division by 0 does not throw, it gives
  \<open>NaN\<close> for \<open>0 / 0\<close> and an infinity otherwise.
\<close>

definition js_div :: "real \<Rightarrow> real \<Rightarrow> jsnum" where
  "js_div a b =
     (if b \<noteq> 0 then Num (a / b) else if a = 0 then NaN else if 0 < a then PosInf else NegInf)"

text \<open>
  \<open>Math.round\<close> on a finite number: the nearest integer, a half upwards. Then
  \<open>x * 100\<close> and \<open>Math.round(x)\<close> on a result of the summary.
\<close>

definition Math_round :: "real \<Rightarrow> int" where
  "Math_round x = \<lfloor>x + 1 / 2\<rfloor>"

fun js_times100 :: "jsnum \<Rightarrow> jsnum" where
  "js_times100 (Num x) = Num (x * 100)"
| "js_times100 NaN = NaN"
| "js_times100 PosInf = PosInf"
| "js_times100 NegInf = NegInf"

fun js_round :: "jsnum \<Rightarrow> jsnum" where
  "js_round (Num x) = Num (of_int (Math_round x))"
| "js_round NaN = NaN"
| "js_round PosInf = PosInf"
| "js_round NegInf = NegInf"

text \<open>
  The rows \<open>fetchSummaryData\<close> reads: the answers of the session (its inner joins keep
  the rows whose player, question and option rows exist).
\<close>

definition allAnswers :: "host \<Rightarrow> game_answer list" where
  "allAnswers s = filter (\<lambda>a. session_id a = sessionId s) (db_answers s)"

text \<open>
  \<open>overview.overallAccuracy\<close>:
  \<open>Math.round(totalAnswers > 0 ? (correctAnswers / totalAnswers) * 100 : 0)\<close>.
\<close>

definition overallAccuracy :: "host \<Rightarrow> jsnum" where
  "overallAccuracy s =
     (let totalAnswers = length (allAnswers s);
          correctAnswers = length (filter is_correct (allAnswers s))
      in js_round (if totalAnswers > 0
                   then js_times100 (js_div (real correctAnswers) (real totalAnswers))
                   else Num 0))"

text \<open>
  The accuracy in \<open>questionStats\<close> for the question at \<open>index\<close>:
  \<open>totalCount > 0 ? (correctCount / totalCount) * 100 : 0\<close>.
\<close>

definition questionAccuracy :: "host \<Rightarrow> int \<Rightarrow> jsnum" where
  "questionAccuracy s index =
     (let questionAnswers = filter (\<lambda>a. question_index a = index) (allAnswers s);
          correctCount = length (filter is_correct questionAnswers);
          totalCount = length questionAnswers
      in if totalCount > 0 then js_times100 (js_div (real correctCount) (real totalCount))
         else Num 0)"

text \<open>
  \<open>insights.participationRate\<close>:
  \<open>Math.round((totalAnswers / (totalQuestions * totalPlayers)) * 100)\<close>, with no test of
  the divisor.
\<close>

definition participationRate :: "host \<Rightarrow> jsnum" where
  "participationRate s =
     (let totalQuestions = length (questions s);
          totalPlayers = length (players s);
          totalAnswers = length (allAnswers s)
      in js_round (js_times100 (js_div (real totalAnswers) (real (totalQuestions * totalPlayers)))))"

text \<open>
  \<open>overview.averageScore\<close>: \<open>Math.round(players.reduce(...) / totalPlayers)\<close>, with no
  test of the divisor either.
\<close>

definition averageScore :: "host \<Rightarrow> jsnum" where
  "averageScore s =
     js_round (js_div (real_of_int (sum_list (map score (players s)))) (real (length (players s))))"

text \<open>
  A game that was started from the lobby before anybody joined (the lobby's start button
  does not wait for players): one question, no players, no answers.
\<close>

definition no_player_host :: host where
  "no_player_host = demo_host\<lparr>questions := [xy_question], players := [], gameEnded := True\<rparr>"

section \<open>Quiz editor (CreateQuiz.tsx)\<close>

text \<open>
  The texts that the editor trims are JavaScript strings, sequences of UTF-16 code units.
  \<open>utf16\<close> gives the code units of a text written in ASCII.
\<close>

type_synonym jsstring = "16 word list"

definition utf16 :: "string \<Rightarrow> jsstring" where
  "utf16 s = map of_char s"

text \<open>The interfaces \<open>Option\<close>, \<open>Question\<close> and \<open>QuizData\<close> of the editor.\<close>

record edit_option =
  eo_id :: string
  eo_text :: jsstring
  isCorrect :: bool

record edit_question =
  eq_id :: string
  eq_text :: jsstring
  timeLimit :: int
  eq_options :: "edit_option list"

record quizData =
  title :: jsstring
  description :: jsstring
  qd_questions :: "edit_question list"

text \<open>
  \<open>s.trim()\<close> removes white space and line terminators at both ends: the code units
  of ECMAScript's \<open>WhiteSpace\<close> and \<open>LineTerminator\<close> (tab, line feed, vertical tab,
  form feed, carriage return, space, no-break space, the Unicode space separators, line
  and paragraph separator, and the byte order mark). \<open>!s.trim()\<close> holds when nothing
  is left.
\<close>

definition is_space :: "16 word \<Rightarrow> bool" where
  "is_space c =
     (c \<in> set [0x0009, 0x000A, 0x000B, 0x000C, 0x000D, 0x0020, 0x00A0, 0x1680,
               0x2000, 0x2001, 0x2002, 0x2003, 0x2004, 0x2005, 0x2006, 0x2007, 0x2008,
               0x2009, 0x200A, 0x2028, 0x2029, 0x202F, 0x205F, 0x3000, 0xFEFF])"

definition trim :: "jsstring \<Rightarrow> jsstring" where
  "trim s = rev (dropWhile is_space (rev (dropWhile is_space s)))"

text \<open>\<open>setCorrectOption(questionId, optionId)\<close>.\<close>

definition setCorrectOption :: "string \<Rightarrow> string \<Rightarrow> quizData \<Rightarrow> quizData" where
  "setCorrectOption questionId optionId prev =
     prev\<lparr>qd_questions :=
       map (\<lambda>q. if eq_id q = questionId
                 then q\<lparr>eq_options := map (\<lambda>opt. opt\<lparr>isCorrect := (eo_id opt = optionId)\<rparr>)
                                          (eq_options q)\<rparr>
                 else q)
           (qd_questions prev)\<rparr>"

text \<open>
  What \<open>validateQuiz\<close> reports before it returns \<open>false\<close>; the number is the
  one-based number of the question.
\<close>

datatype rejection =
  MissingTitle
| NoQuestions
| QuestionIncomplete nat
| InvalidTime nat
| NeedsMoreOptions nat
| EmptyOptions nat
| NeedsCorrectAnswer nat

text \<open>The checks of one question, in the order of the source.\<close>

definition checkQuestion :: "nat \<Rightarrow> edit_question \<Rightarrow> rejection option" where
  "checkQuestion questionNum q =
     (if trim (eq_text q) = [] then Some (QuestionIncomplete questionNum)
      else if timeLimit q < 5 \<or> timeLimit q > 120 then Some (InvalidTime questionNum)
      else if length (eq_options q) < 2 then Some (NeedsMoreOptions questionNum)
      else if length (filter (\<lambda>opt. trim (eo_text opt) = []) (eq_options q)) > 0
           then Some (EmptyOptions questionNum)
      else if length (filter isCorrect (eq_options q)) = 0
           then Some (NeedsCorrectAnswer questionNum)
      else None)"

text \<open>The loop over the questions, which returns at the first question that fails.\<close>

fun checkQuestions :: "nat \<Rightarrow> edit_question list \<Rightarrow> rejection option" where
  "checkQuestions i [] = None"
| "checkQuestions i (q # qs) =
     (case checkQuestion (i + 1) q of
        Some r \<Rightarrow> Some r
      | None \<Rightarrow> checkQuestions (i + 1) qs)"

definition validation :: "quizData \<Rightarrow> rejection option" where
  "validation qd =
     (if trim (title qd) = [] then Some MissingTitle
      else if length (qd_questions qd) = 0 then Some NoQuestions
      else checkQuestions 0 (qd_questions qd))"

definition validateQuiz :: "quizData \<Rightarrow> bool" where
  "validateQuiz qd = (validation qd = None)"

text \<open>
  \<open>saveQuiz\<close>: nothing is written unless \<open>validateQuiz\<close> accepts the quiz and a user is
  signed in; then each question is inserted with its options, the texts trimmed and
  \<open>is_correct\<close> taken from \<open>isCorrect\<close>. The result is the list of question rows written,
  each with its option rows (text, \<open>is_correct\<close>).
\<close>

definition saveQuiz ::
  "bool \<Rightarrow> quizData \<Rightarrow> (jsstring \<times> int \<times> (jsstring \<times> bool) list) list option" where
  "saveQuiz signedIn qd =
     (if \<not> validateQuiz qd then None
      else if \<not> signedIn then None
      else Some (map (\<lambda>q. (trim (eq_text q), timeLimit q,
                           map (\<lambda>opt. (trim (eo_text opt), isCorrect opt)) (eq_options q)))
                     (qd_questions qd)))"

text \<open>The number of correct options of a question.\<close>

definition correctCount :: "edit_question \<Rightarrow> nat" where
  "correctCount q = length (filter isCorrect (eq_options q))"

text \<open>A quiz of one question with the options \<open>a\<close>, \<open>b\<close>, and whether each is correct.\<close>

definition ab_quiz :: "bool \<Rightarrow> bool \<Rightarrow> quizData" where
  "ab_quiz ca cb = \<lparr>title = utf16 ''Capitals'', description = [], qd_questions =
     [\<lparr>eq_id = ''q1'', eq_text = utf16 ''Paris?'', timeLimit = 30, eq_options =
        [\<lparr>eo_id = ''a'', eo_text = utf16 ''yes'', isCorrect = ca\<rparr>,
         \<lparr>eo_id = ''b'', eo_text = utf16 ''oui'', isCorrect = cb\<rparr>]\<rparr>]\<rparr>"

section \<open>Scoring: theorems\<close>

lemma players_onAnswerInsert:
  "players (onAnswerInsert a s) = (if is_correct a then addPoints a (players s) else players s)"
  by (simp add: onAnswerInsert_def onAnswerInsertIn_def Let_def)

lemma players_deliver:
  "map score (players (deliver evs s)) =
     map (\<lambda>p. score p + 100 * int (credited evs (p_id p))) (players s)
   \<and> map p_id (players (deliver evs s)) = map p_id (players s)"
proof (induction evs arbitrary: s)
  case Nil
  show ?case by (simp add: deliver_def credited_def)
next
  case (Cons a evs)
  have step: "deliver (a # evs) s = deliver evs (onAnswerInsert a s)"
    by (simp add: deliver_def)
  have ids: "map p_id (players (onAnswerInsert a s)) = map p_id (players s)"
    by (simp add: players_onAnswerInsert addPoints_def comp_def)
  have sc: "map (\<lambda>p. score p + 100 * int (credited evs (p_id p))) (players (onAnswerInsert a s))
          = map (\<lambda>p. score p + 100 * int (credited (a # evs) (p_id p))) (players s)"
    by (simp add: players_onAnswerInsert addPoints_def comp_def credited_def calculateScore_def)
  show ?case
    using Cons.IH [of "onAnswerInsert a s"] by (simp add: step ids sc)
qed

lemma players_fetchGameData:
  "players (fetchGameData s)
   = map (\<lambda>p. p\<lparr>score := 0, totalCompletionTime := Some 0\<rparr>) (players s)"
  by (simp add: fetchGameData_def startTimerIn_def Let_def split: option.splits)

text \<open>
  C1 (as amended). Every player starts with score 0 when the host screen loads its
  players. From then on the score shown for a player is the score the player had before
  plus 100 for every delivered INSERT notification that has \<open>is_correct\<close> set and
  carries the player's id; each delivery counts, so a notification delivered twice adds
  200. The notifications change neither the ids nor the order of the players.
\<close>

theorem score_counts_delivered_notifications:
  "map score (players (fetchGameData s)) = map (\<lambda>p. 0) (players s)
   \<and> map score (players (deliver evs s)) =
       map (\<lambda>p. score p + 100 * int (credited evs (p_id p))) (players s)
   \<and> map p_id (players (deliver evs s)) = map p_id (players s)"
proof -
  have "map score (players (fetchGameData s)) = map (\<lambda>p. 0) (players s)"
    by (simp add: players_fetchGameData comp_def)
  then show ?thesis
    using players_deliver [of evs s] by simp
qed

text \<open>
  C1 (as stated) fails: the log holds one correct answer of \<open>p1\<close>, its notification is
  delivered twice, and the score on screen is 200 where the log gives 100.
\<close>

theorem score_duplicate_notification_counterexample:
  "map score (players (deliver [demo_answer, demo_answer] demo_host)) = [200]
   \<and> spec_score [demo_answer] ''p1'' = 100"
  by (simp add: deliver_def onAnswerInsert_def onAnswerInsertIn_def mountRender_def
      addPoints_def calculateScore_def demo_host_def demo_player_def demo_answer_def
      spec_score_def Let_def)

section \<open>Leaderboards: theorems\<close>

lemma comparePlayers_key: "comparePlayers a b \<le> 0 \<longleftrightarrow> playerKey a \<le> playerKey b"
  by (auto simp: comparePlayers_def playerKey_def less_eq_prod_def)

lemma insert_by_insort: "insert_by comparePlayers x ys = insort_key playerKey x ys"
  by (induction ys) (simp_all add: comparePlayers_key)

lemma sort_by_sort_key: "sort_by comparePlayers ps = sort_key playerKey ps"
  by (induction ps) (simp_all add: sort_by_def insert_by_insort)


lemma mset_sortedPlayers: "mset (sortedPlayers ps) = mset ps"
  by (simp add: sortedPlayers_def sort_by_sort_key)






lemma sortedPlayers_six:
  "map p_id (sortedPlayers six_players) = [''b'', ''e'', ''f'', ''c'', ''a'', ''d'']"
  by (simp add: sortedPlayers_def sort_by_def comparePlayers_def six_players_def mk_player_def
      num_or_0_def)



text \<open>
  C10. The mid-game leaderboard is the first five entries of the sorted order, so it has
  at most five rows and leaves out exactly the entries from the sixth on; the game-over
  screen renders the whole sorted list, which holds every player once. With distinct
  player ids, nobody left out mid-game is shown mid-game.
\<close>

theorem midgame_shows_first_five:
  "midGameLeaderboard ps = take 5 (sortedPlayers ps)
   \<and> length (midGameLeaderboard ps) = min 5 (length ps)
   \<and> midGameLeaderboard ps @ drop 5 (sortedPlayers ps) = sortedPlayers ps
   \<and> mset (sortedPlayers ps) = mset ps
   \<and> (distinct (map p_id ps) \<longrightarrow>
        set (map p_id (midGameLeaderboard ps)) \<inter> set (map p_id (drop 5 (sortedPlayers ps))) = {})"
proof -
  have eq: "midGameLeaderboard ps = take 5 (sortedPlayers ps)"
    by (simp add: midGameLeaderboard_def sortedPlayers_def)
  have len: "length (sortedPlayers ps) = length ps"
    using mset_sortedPlayers [of ps] by (rule mset_eq_length)
  have dis: "set (map p_id (take 5 (sortedPlayers ps))) \<inter> set (map p_id (drop 5 (sortedPlayers ps))) = {}"
    if d: "distinct (map p_id ps)"
  proof -
    have "mset (map p_id (sortedPlayers ps)) = mset (map p_id ps)"
      by (simp add: mset_sortedPlayers)
    then have "distinct (map p_id (sortedPlayers ps))"
      using d by (metis mset_eq_imp_distinct_iff)
    then have "distinct (map p_id (take 5 (sortedPlayers ps)) @ map p_id (drop 5 (sortedPlayers ps)))"
      by (simp only: map_append [symmetric] append_take_drop_id)
    then show ?thesis by simp
  qed
  show ?thesis
    using dis by (simp add: eq len mset_sortedPlayers min.commute)
qed

theorem midgame_shows_first_five_witness:
  "distinct (map p_id six_players)
   \<and> map p_id (midGameLeaderboard six_players) = [''b'', ''e'', ''f'', ''c'', ''a'']
   \<and> map p_id (drop 5 (sortedPlayers six_players)) = [''d'']"
proof -
  have d: "distinct (map p_id six_players)"
    by (simp add: six_players_def mk_player_def)
  have "midGameLeaderboard six_players = take 5 (sortedPlayers six_players)"
    using midgame_shows_first_five [of six_players] by simp
  then have "map p_id (midGameLeaderboard six_players) = take 5 (map p_id (sortedPlayers six_players))"
    by (simp add: take_map)
  then show ?thesis
    using d by (simp add: sortedPlayers_six drop_map [symmetric])
qed

section \<open>Tally: theorems\<close>

lemma uniqueKey_inj: "uniqueKey qi a = uniqueKey qi b \<longleftrightarrow> a = b"
  by (simp add: uniqueKey_def)

lemma sum_update:
  "map_of al k = Some v \<Longrightarrow> counts_sum (AList.update k w al) = counts_sum al - v + w"
  by (induction al) (auto simp: counts_sum_def)

lemma keys_bumpStat: "fst ` set (bumpStat k al) = fst ` set al"
  by (auto simp: bumpStat_def hasOwnProperty_def dom_update map_of_eq_None_iff)

lemma sum_bumpStat:
  "counts_sum (bumpStat k al) = counts_sum al + (if k \<in> fst ` set al then 1 else 0)"
proof (cases "map_of al k")
  case None
  then show ?thesis
    by (simp add: bumpStat_def hasOwnProperty_def map_of_eq_None_iff)
next
  case (Some v)
  then have "k \<in> fst ` set al"
    by (metis map_of_eq_None_iff option.distinct(1))
  then show ?thesis using Some
    by (simp add: bumpStat_def hasOwnProperty_def get_or_0_def sum_update)
qed

lemma keys_foldl_bump:
  "fst ` set (foldl (\<lambda>stats answer. bumpStat (f answer) stats) al answers) = fst ` set al"
  by (induction answers arbitrary: al) (simp_all add: keys_bumpStat)

lemma sum_foldl_bump:
  "counts_sum (foldl (\<lambda>stats answer. bumpStat (f answer) stats) al answers)
   = counts_sum al + int (length (filter (\<lambda>a. f a \<in> fst ` set al) answers))"
  by (induction answers arbitrary: al) (simp_all add: keys_bumpStat sum_bumpStat)

lemma zero_update:
  "snd ` set al \<subseteq> {0} \<Longrightarrow> snd ` set (AList.update k (0::int) al) \<subseteq> {0}"
  by (induction al) auto

lemma fresh_aux:
  "snd ` set al \<subseteq> {0} \<Longrightarrow>
   snd ` set (foldl (\<lambda>stats opt. AList.update (g opt) (0::int) stats) al os) \<subseteq> {0}
   \<and> fst ` set (foldl (\<lambda>stats opt. AList.update (g opt) (0::int) stats) al os)
     = fst ` set al \<union> g ` set os"
  by (induction os arbitrary: al) (auto simp: zero_update dom_update)

lemma sum_zero: "snd ` set al \<subseteq> {0::int} \<Longrightarrow> counts_sum al = 0"
  by (induction al) (auto simp: counts_sum_def)

lemma get_zero: "snd ` set al \<subseteq> {0::int} \<Longrightarrow> get_or_0 al k = 0"
proof (cases "map_of al k")
  case None
  then show ?thesis by (simp add: get_or_0_def)
next
  case (Some v)
  assume z: "snd ` set al \<subseteq> {0::int}"
  from Some have "(k, v) \<in> set al" by (rule map_of_SomeD)
  then have "v \<in> snd ` set al" by force
  with z Some show ?thesis by (auto simp: get_or_0_def)
qed

lemma keys_freshStats: "fst ` set (freshStats qi q) = uniqueKey qi ` o_id ` set (options q)"
  using fresh_aux [of "[]" "\<lambda>opt. uniqueKey qi (o_id opt)" "options q"]
  by (auto simp: freshStats_def)

lemma values_freshStats: "snd ` set (freshStats qi q) \<subseteq> {0}"
  using fresh_aux [of "[]" "\<lambda>opt. uniqueKey qi (o_id opt)" "options q"]
  by (simp add: freshStats_def)

lemma tally_sum:
  "counts_sum (fst (tally qi q answers)) = int (length (filter (known_option q) answers))"
proof -
  have "(\<lambda>a. uniqueKey qi (option_id a) \<in> fst ` set (freshStats qi q)) = known_option q"
    by (auto simp: keys_freshStats known_option_def uniqueKey_inj)
  then show ?thesis
    by (simp add: tally_def sum_foldl_bump sum_zero values_freshStats)
qed

lemma tally_total: "snd (tally qi q answers) = int (length answers)"
  by (simp add: tally_def)

lemma refresh_on_screen:
  "0 \<le> qi \<Longrightarrow> nth_opt (questions s) qi = Some q \<Longrightarrow> qi = currentQuestionIndex s \<Longrightarrow>
   tally_state (refreshAnswerStats qi s) = tally qi q (select_answers s qi)"
  by (simp add: refreshAnswerStats_def refreshAnswerStatsIn_def renderOf_def tally_state_def
      Let_def split: prod.splits)

lemma refresh_idem: "refreshAnswerStats qi (refreshAnswerStats qi s) = refreshAnswerStats qi s"
  by (auto simp: refreshAnswerStats_def refreshAnswerStatsIn_def renderOf_def select_answers_def
      Let_def split: option.splits prod.splits)

lemma refresh_index: "currentQuestionIndex (refreshAnswerStats qi s) = currentQuestionIndex s"
  by (auto simp: refreshAnswerStats_def refreshAnswerStatsIn_def renderOf_def Let_def
      split: option.splits prod.splits)

lemma show_int_0: "show_int 0 = ''0''"
  by (simp add: show_int_def show_nat.simps digit_char_def)

lemma fresh_xy: "freshStats 0 xy_question = [(''q0_X'', 0), (''q0_Y'', 0)]"
  by (simp add: freshStats_def xy_question_def uniqueKey_def show_int_0)

lemma tally_xxy: "tally 0 xy_question xxy_answers = ([(''q0_X'', 2), (''q0_Y'', 1)], 3)"
  by (simp add: tally_def fresh_xy xxy_answers_def mk_answer_def bumpStat_def
      hasOwnProperty_def get_or_0_def uniqueKey_def show_int_0)

lemma length_filter_all:
  "length (filter P xs) = length xs \<longleftrightarrow> (\<forall>x \<in> set xs. P x)"
proof (induction xs)
  case Nil
  show ?case by simp
next
  case (Cons x xs)
  have le: "length (filter P xs) \<le> length xs"
    by (rule length_filter_le)
  show ?case
  proof (cases "P x")
    case True
    with Cons show ?thesis by simp
  next
    case False
    have "length (filter P xs) \<noteq> Suc (length xs)"
      using le by linarith
    with False show ?thesis by simp
  qed
qed

lemma xy_host_fields:
  "questions (xy_host answers) = [xy_question]"
  "currentQuestionIndex (xy_host answers) = 0"
  "answerStats (xy_host answers) = [(''q0_X'', 0), (''q0_Y'', 0)]"
  "totalAnswers (xy_host answers) = 0"
  by (simp_all add: xy_host_def demo_host_def fresh_xy)

lemma nth_opt_xy: "nth_opt [xy_question] 0 = Some xy_question"
  by (simp add: nth_opt_def)

lemma select_xy_host:
  "select_answers (xy_host xxy_answers) 0 = xxy_answers"
  "select_answers (xy_host []) 0 = []"
  by (simp_all add: select_answers_def xy_host_def demo_host_def xxy_answers_def mk_answer_def)

lemma refresh_xy_host:
  "tally_state (refreshAnswerStats 0 (xy_host answers))
   = tally 0 xy_question (select_answers (xy_host answers) 0)"
  by (rule refresh_on_screen) (simp_all add: xy_host_fields nth_opt_xy)

text \<open>
  C4 (as amended). The counters of the tally add up to the number of stored rows whose
  option belongs to the question, and the total is the number of all stored rows of the
  session and question index. So the sum is at most the total, and equals it exactly when
  every stored row names an option of the question. The total is at most the number of
  players when the rows carry pairwise different player ids of players of the session;
  the tally itself does not look at the players. On the host screen the refresh writes
  this tally for the question on screen.
\<close>

theorem tally_sum_and_total:
  "counts_sum (fst (tally qi q answers)) = int (length (filter (known_option q) answers))
   \<and> snd (tally qi q answers) = int (length answers)
   \<and> counts_sum (fst (tally qi q answers)) \<le> snd (tally qi q answers)
   \<and> (counts_sum (fst (tally qi q answers)) = snd (tally qi q answers)
        \<longleftrightarrow> (\<forall>a \<in> set answers. known_option q a))
   \<and> (distinct (map player_id answers) \<and> set (map player_id answers) \<subseteq> set (map p_id ps)
        \<longrightarrow> snd (tally qi q answers) \<le> int (length ps))
   \<and> (0 \<le> qi \<and> nth_opt (questions s) qi = Some q \<and> qi = currentQuestionIndex s
        \<longrightarrow> tally_state (refreshAnswerStats qi s) = tally qi q (select_answers s qi))"
proof -
  have le: "length (filter (known_option q) answers) \<le> length answers"
    by (rule length_filter_le)
  have eq: "length (filter (known_option q) answers) = length answers
            \<longleftrightarrow> (\<forall>a \<in> set answers. known_option q a)"
    by (rule length_filter_all)
  have bound: "length answers \<le> length ps"
    if d: "distinct (map player_id answers)"
      and sub: "set (map player_id answers) \<subseteq> set (map p_id ps)"
  proof -
    have "length answers = card (set (map player_id answers))"
      using d by (metis distinct_card length_map)
    also have "\<dots> \<le> card (set (map p_id ps))"
      using sub by (simp add: card_mono)
    also have "\<dots> \<le> length ps"
      by (metis card_length length_map)
    finally show ?thesis .
  qed
  have scr: "0 \<le> qi \<and> nth_opt (questions s) qi = Some q \<and> qi = currentQuestionIndex s
        \<longrightarrow> tally_state (refreshAnswerStats qi s) = tally qi q (select_answers s qi)"
    using refresh_on_screen [of qi s q] by blast
  have "counts_sum (fst (tally qi q answers)) \<le> snd (tally qi q answers)"
    using le by (simp add: tally_sum tally_total)
  moreover have "counts_sum (fst (tally qi q answers)) = snd (tally qi q answers)
        \<longleftrightarrow> (\<forall>a \<in> set answers. known_option q a)"
    using eq by (simp add: tally_sum tally_total)
  moreover have "distinct (map player_id answers)
        \<and> set (map player_id answers) \<subseteq> set (map p_id ps)
        \<longrightarrow> snd (tally qi q answers) \<le> int (length ps)"
    using bound by (simp add: tally_total)
  ultimately show ?thesis
    using scr tally_sum [of qi q answers] tally_total [of qi q answers] by blast
qed

theorem tally_sum_and_total_witness:
  "distinct (map player_id xxy_answers)
   \<and> set (map player_id xxy_answers) \<subseteq> set (map p_id abc_players)
   \<and> filter (known_option xy_question) xxy_answers = xxy_answers
   \<and> nth_opt (questions (xy_host xxy_answers)) 0 = Some xy_question
   \<and> tally_state (refreshAnswerStats 0 (xy_host xxy_answers)) = ([(''q0_X'', 2), (''q0_Y'', 1)], 3)
   \<and> counts_sum [(''q0_X'', 2), (''q0_Y'', 1)] = 3
   \<and> (3::int) \<le> int (length abc_players)"
proof -
  have h1: "distinct (map player_id xxy_answers)
            \<and> set (map player_id xxy_answers) \<subseteq> set (map p_id abc_players)"
    by (simp add: xxy_answers_def mk_answer_def abc_players_def mk_player_def)
  have h2: "\<forall>a \<in> set xxy_answers. known_option xy_question a"
    by (simp add: xxy_answers_def mk_answer_def known_option_def xy_question_def)
  show ?thesis
    using tally_sum_and_total [of 0 xy_question xxy_answers abc_players "xy_host xxy_answers"]
      h1 h2
    by (simp add: xy_host_fields nth_opt_xy select_xy_host tally_xxy counts_sum_def abc_players_def)
qed

text \<open>
  C4 (as stated) fails: one stored row with an option \<open>Z\<close> that the question does not
  have, in a session without players. The counters add up to 0, the total is 1.
\<close>

theorem tally_stray_option_counterexample:
  "counts_sum (fst (tally 0 xy_question [stray_answer])) = 0
   \<and> snd (tally 0 xy_question [stray_answer]) = 1
   \<and> \<not> snd (tally 0 xy_question [stray_answer]) \<le> int (length ([] :: player list))"
  by (simp add: tally_def fresh_xy stray_answer_def mk_answer_def bumpStat_def
      hasOwnProperty_def uniqueKey_def show_int_0 counts_sum_def)

lemma refresh_before_start: "refreshAnswerStatsIn mountRender (- 1) s = s"
  by (simp add: refreshAnswerStatsIn_def)

lemma onBroadcast_refresh:
  "onBroadcast (QuestionStarted qi) s = s" "onBroadcast (QuestionChanged qi) s = s"
  by (simp_all add: onBroadcast_def mountRender_def refreshAnswerStatsIn_def)

lemma onBroadcast_answer:
  "onBroadcast (AnswerSubmitted qi oid) s
   = (if qi = - 1
      then s\<lparr>answerStats := bumpStat (uniqueKey qi oid) (answerStats s),
             totalAnswers := totalAnswers s + 1\<rparr>
      else s)"
  by (simp add: onBroadcast_def mountRender_def)

text \<open>
  C5. The handlers in use compare the question index of an event with the index of the
  first render, which is \<open>- 1\<close>, not with the question on screen. So an event for a
  question (any index other than \<open>- 1\<close>), whether that question is on screen or not,
  leaves the host state as it is: consuming it twice gives the state that consuming it
  once gives, and an event with a stale index changes nothing. For the tally-refresh
  events this holds whatever index they carry. (An \<open>answer_submitted\<close> event carrying
  \<open>- 1\<close> is counted at every delivery, see \<open>onBroadcast_answer\<close>.)
\<close>

theorem broadcast_consumption:
  "onBroadcast (QuestionStarted qi) (onBroadcast (QuestionStarted qi) s)
     = onBroadcast (QuestionStarted qi) s
   \<and> onBroadcast (QuestionChanged qi) (onBroadcast (QuestionChanged qi) s)
     = onBroadcast (QuestionChanged qi) s
   \<and> tally_state (onBroadcast (QuestionStarted qi) s) = tally_state s
   \<and> tally_state (onBroadcast (QuestionChanged qi) s) = tally_state s
   \<and> (qi \<noteq> - 1 \<longrightarrow>
        onBroadcast (AnswerSubmitted qi oid) (onBroadcast (AnswerSubmitted qi oid) s)
          = onBroadcast (AnswerSubmitted qi oid) s
        \<and> tally_state (onBroadcast (AnswerSubmitted qi oid) s) = tally_state s
        \<and> onBroadcast (AnswerSubmitted qi oid) s = s)"
  by (simp add: onBroadcast_refresh onBroadcast_answer)

theorem broadcast_consumption_witness:
  "(0::int) \<noteq> - 1 \<and> (1::int) \<noteq> - 1
   \<and> currentQuestionIndex (xy_host []) = 0
   \<and> onBroadcast (AnswerSubmitted 0 ''X'') (xy_host []) = xy_host []
   \<and> onBroadcast (AnswerSubmitted 1 ''X'') (xy_host []) = xy_host []
   \<and> tally_state (onBroadcast (AnswerSubmitted 0 ''X'') (onBroadcast (AnswerSubmitted 0 ''X'') (xy_host [])))
     = ([(''q0_X'', 0), (''q0_Y'', 0)], 0)"
  using broadcast_consumption [of 0 "xy_host []" "''X''"]
    broadcast_consumption [of 1 "xy_host []" "''X''"]
  by (simp add: xy_host_fields tally_state_def)

lemma round_even_err:
  assumes "0 < d"
  shows "\<bar>real (round_even n d) - real n / real d\<bar> \<le> 1 / 2"
proof -
  define q r where "q = n div d" and "r = n mod d"
  have n: "real n = real q * real d + real r"
    unfolding q_def r_def by (metis div_mult_mod_eq of_nat_add of_nat_mult)
  have rd: "r < d" unfolding r_def using assms by simp
  have x: "real n / real d = real q + real r / real d"
    using assms by (simp add: n field_simps)
  have re: "round_even n d = (if 2 * r < d then q else if d < 2 * r then q + 1 else if even q then q else q + 1)"
    by (simp add: round_even_def q_def r_def Let_def)
  show ?thesis
  proof (cases "2 * r < d")
    case True
    then have "real r / real d \<le> 1 / 2" using assms by (simp add: field_simps)
    with True show ?thesis by (simp add: re x)
  next
    case False
    note nlt = False
    show ?thesis
    proof (cases "d < 2 * r")
      case True
      then have "1 / 2 \<le> real r / real d" using assms by (simp add: field_simps)
      moreover have "real r / real d \<le> 1" using rd assms by (simp add: field_simps)
      ultimately show ?thesis using True nlt by (simp add: re x)
    next
      case False
      with nlt have "d = 2 * r" by simp
      then have half: "real r / real d = 1 / 2" using assms by (simp add: field_simps)
      have tie: "round_even n d = (if even q then q else q + 1)"
        using False nlt by (simp only: re if_False)
      show ?thesis
        unfolding tie x half by simp
    qed
  qed
qed

lemma bits_bounds: "0 < n \<Longrightarrow> 2 ^ (bits n - 1) \<le> n \<and> n < 2 ^ bits n"
proof (induction n rule: bits.induct)
  case (1 n)
  show ?case
  proof (cases "n div 2 = 0")
    case True
    with "1.prems" have "n = 1" by (simp add: div_eq_0_iff)
    then show ?thesis by (simp add: bits.simps)
  next
    case False
    then have pos: "0 < n div 2" by simp
    from "1.IH" [OF _ pos] "1.prems"
    have ih: "2 ^ (bits (n div 2) - 1) \<le> n div 2" "n div 2 < 2 ^ bits (n div 2)" by simp_all
    have b: "bits n = Suc (bits (n div 2))" using "1.prems" by (simp add: bits.simps)
    have bpos: "0 < bits (n div 2)" using pos by (simp add: bits.simps)
    have "2 ^ (bits n - 1) = 2 * 2 ^ (bits (n div 2) - 1)"
      using bpos by (simp add: b power_eq_if)
    also have "\<dots> \<le> 2 * (n div 2)" using ih(1) by simp
    also have "\<dots> \<le> n" by simp
    finally have lo: "2 ^ (bits n - 1) \<le> n" .
    have "n < 2 * (n div 2) + 2" by presburger
    also have "\<dots> \<le> 2 * 2 ^ bits (n div 2)" using ih(2) by simp
    finally have "n < 2 ^ bits n" by (simp add: b)
    with lo show ?thesis by simp
  qed
qed

lemma p2_nonneg: "0 \<le> k \<Longrightarrow> 2 powr real_of_int k = 2 ^ nat k"
  by (metis int_nat_eq of_int_of_nat_eq powr_realpow zero_less_numeral)

lemma p2_neg: "k \<le> 0 \<Longrightarrow> 2 powr real_of_int k = 1 / 2 ^ nat (- k)"
proof -
  assume "k \<le> 0"
  then have "2 powr real_of_int (- k) = 2 ^ nat (- k)" by (intro p2_nonneg) simp
  then show ?thesis by (simp add: powr_minus field_simps)
qed

lemma binexp_lower:
  assumes "0 < n" "0 < d"
  shows "2 powr real_of_int (binexp n d) \<le> real n / real d"
proof -
  define k where "k = int (bits n) - int (bits d)"
  show ?thesis
  proof (cases "pow2_le k n d")
    case True
    then have e: "binexp n d = k" by (simp add: binexp_def k_def Let_def)
    show ?thesis
    proof (cases "0 \<le> k")
      case True
      with \<open>pow2_le k n d\<close> have "d * 2 ^ nat k \<le> n" by (simp add: pow2_le_def)
      then have "real d * 2 ^ nat k \<le> real n"
        by (metis of_nat_le_iff of_nat_mult of_nat_numeral of_nat_power)
      then have "2 ^ nat k \<le> real n / real d"
        using assms(2) by (simp add: field_simps)
      then show ?thesis by (simp add: e p2_nonneg True)
    next
      case False
      with \<open>pow2_le k n d\<close> have "d \<le> n * 2 ^ nat (- k)" by (simp add: pow2_le_def)
      then have "real d \<le> real n * 2 ^ nat (- k)"
        by (metis of_nat_le_iff of_nat_mult of_nat_numeral of_nat_power)
      then have "1 / 2 ^ nat (- k) \<le> real n / real d"
        using assms(2) by (simp add: field_simps)
      then show ?thesis using False by (simp add: e p2_neg)
    qed
  next
    case False
    then have e: "binexp n d = k - 1" by (simp add: binexp_def k_def Let_def)
    have bn: "0 < bits n" using assms(1) by (simp add: bits.simps)
    have "real_of_int (k - 1) = real_of_int (int (bits n - 1)) - real_of_int (int (bits d))"
      using bn by (simp add: k_def)
    then have "2 powr real_of_int (k - 1)
               = 2 powr real_of_int (int (bits n - 1)) / 2 powr real_of_int (int (bits d))"
      by (simp add: powr_diff)
    also have "\<dots> = 2 ^ (bits n - 1) / 2 ^ bits d"
      by (simp add: powr_realpow)
    also have "\<dots> \<le> real n / 2 ^ bits d"
    proof -
      have "(2::nat) ^ (bits n - 1) \<le> n" using bits_bounds [OF assms(1)] by simp
      then have "(2::real) ^ (bits n - 1) \<le> real n"
        by (metis of_nat_le_iff of_nat_numeral of_nat_power)
      then show ?thesis by (simp add: divide_right_mono)
    qed
    also have "\<dots> \<le> real n / real d"
    proof -
      have "d < 2 ^ bits d" using bits_bounds [OF assms(2)] by simp
      then have "real d \<le> 2 ^ bits d"
        by (metis less_imp_le of_nat_le_iff of_nat_numeral of_nat_power)
      then show ?thesis using assms by (simp add: frac_le)
    qed
    finally show ?thesis by (simp add: e)
  qed
qed

lemma scale_err:
  fixes a b h c :: real
  assumes "\<bar>a - b\<bar> \<le> h" "0 \<le> c"
  shows "\<bar>a * c - b * c\<bar> \<le> h * c"
proof -
  have "a * c - b * c = (a - b) * c" by (simp add: algebra_simps)
  then have "\<bar>a * c - b * c\<bar> = \<bar>a - b\<bar> * c" using assms(2) by (simp add: abs_mult)
  then show ?thesis using assms by (simp add: mult_right_mono)
qed

lemma nearest_err:
  assumes "0 < d"
  shows "\<bar>val (nearest n d) - real n / real d\<bar> \<le> 2 powr real_of_int (snd (nearest n d)) / 2
         \<and> 0 \<le> fst (nearest n d)"
proof (cases "n = 0")
  case True
  then show ?thesis by (simp add: nearest_def val_def)
next
  case False
  define e where "e = binexp n d - 52"
  show ?thesis
  proof (cases "e \<le> 0")
    case True
    define c :: real where "c = 1 / 2 ^ nat (- e)"
    have nd: "nearest n d = (int (round_even (n * 2 ^ nat (- e)) d), e)"
      using False True by (simp add: nearest_def e_def Let_def)
    have p: "2 powr real_of_int e = c" unfolding c_def using True by (rule p2_neg)
    have c0: "0 \<le> c" by (simp add: c_def)
    have "\<bar>real (round_even (n * 2 ^ nat (- e)) d) - real (n * 2 ^ nat (- e)) / real d\<bar> \<le> 1 / 2"
      using assms by (rule round_even_err)
    from scale_err [OF this c0]
    have A: "\<bar>real (round_even (n * 2 ^ nat (- e)) d) * c
            - real (n * 2 ^ nat (- e)) / real d * c\<bar> \<le> 1 / 2 * c" .
    have B: "real (n * 2 ^ nat (- e)) / real d * c = real n / real d"
      by (simp add: c_def)
    have "\<bar>real (round_even (n * 2 ^ nat (- e)) d) * c - real n / real d\<bar> \<le> c / 2"
      using A unfolding B by simp
    then show ?thesis
      by (simp add: nd val_def p)
  next
    case False
    note pos = False
    define c :: real where "c = 2 ^ nat e"
    have nd: "nearest n d = (int (round_even n (d * 2 ^ nat e)), e)"
      using \<open>n \<noteq> 0\<close> pos by (simp add: nearest_def e_def Let_def)
    have p: "2 powr real_of_int e = c" unfolding c_def using pos by (intro p2_nonneg) simp
    have c0: "0 \<le> c" by (simp add: c_def)
    have "\<bar>real (round_even n (d * 2 ^ nat e)) - real n / real (d * 2 ^ nat e)\<bar> \<le> 1 / 2"
      using assms by (intro round_even_err) simp
    from scale_err [OF this c0]
    have A: "\<bar>real (round_even n (d * 2 ^ nat e)) * c
            - real n / real (d * 2 ^ nat e) * c\<bar> \<le> 1 / 2 * c" .
    have B: "real n / real (d * 2 ^ nat e) * c = real n / real d"
      by (simp add: c_def)
    have "\<bar>real (round_even n (d * 2 ^ nat e)) * c - real n / real d\<bar> \<le> c / 2"
      using A unfolding B by simp
    then show ?thesis
      by (simp add: nd val_def p)
  qed
qed

lemma nearest_exp: "n \<noteq> 0 \<Longrightarrow> snd (nearest n d) = binexp n d - 52"
  by (simp add: nearest_def Let_def)

lemma nearest_err_bound:
  assumes "0 < d" and "real n / real d \<le> 2 powr real_of_int j"
  shows "\<bar>val (nearest n d) - real n / real d\<bar> \<le> 2 powr real_of_int (j - 53)"
proof (cases "n = 0")
  case True
  then show ?thesis by (simp add: nearest_def val_def)
next
  case False
  then have "2 powr real_of_int (binexp n d) \<le> real n / real d"
    using assms(1) by (intro binexp_lower) simp_all
  with assms(2) have "2 powr real_of_int (binexp n d) \<le> 2 powr real_of_int j" by linarith
  then have "binexp n d \<le> j" by simp
  then have "snd (nearest n d) \<le> j - 52" using False by (simp add: nearest_exp)
  then have "2 powr real_of_int (snd (nearest n d)) \<le> 2 powr real_of_int (j - 52)"
    by simp
  then have "2 powr real_of_int (snd (nearest n d)) / 2 \<le> 2 powr real_of_int (j - 52) / 2"
    by simp
  also have "\<dots> = 2 powr real_of_int (j - 53)"
    by (simp add: powr_diff)
  finally show ?thesis
    using nearest_err [OF assms(1), of n] by linarith
qed

lemma f64_round_val: "f64_round (F64 m e) = F64 \<lfloor>val (m, e) + 1 / 2\<rfloor> 0"
proof (cases "0 \<le> e")
  case True
  have "val (m, e) = real_of_int (m * 2 ^ nat e)"
    using True by (simp add: val_def p2_nonneg)
  then have "\<lfloor>val (m, e) + 1 / 2\<rfloor> = m * 2 ^ nat e"
    by linarith
  with True show ?thesis by simp
next
  case False
  define k where "k = nat (- e)"
  have k1: "nat (1 - e) = Suc k" using False by (simp add: k_def)
  have "val (m, e) = real_of_int m / 2 ^ k"
    using False by (simp add: val_def p2_neg k_def)
  then have "val (m, e) + 1 / 2 = real_of_int (2 * m + 2 ^ k) / real_of_int (2 ^ Suc k)"
    by (simp add: field_simps)
  then have "\<lfloor>val (m, e) + 1 / 2\<rfloor> = (2 * m + 2 ^ k) div 2 ^ Suc k"
    by (simp only: floor_divide_of_int_eq)
  with False show ?thesis by (simp add: k1 k_def)
qed

lemma pow_m53: "2 powr real_of_int (0 - 53) = 1 / 2 ^ 53"
  using p2_neg [of "- 53"] by simp

lemma pow_m46: "2 powr real_of_int (7 - 53) = 1 / 2 ^ 46"
  using p2_neg [of "- 46"] by simp

lemma percentage_close:
  assumes "0 \<le> c" "c \<le> t" "0 < t"
  shows "\<exists>y. percentage c t = F64 \<lfloor>y + 1 / 2\<rfloor> 0
             \<and> \<bar>y - 100 * real_of_int c / real_of_int t\<bar> < 1 / 2 ^ 45"
proof -
  define n d where "n = nat c" and "d = nat t"
  define x where "x = real n / real d"
  have d: "0 < d" using assms by (simp add: d_def)
  have x: "x = real_of_int c / real_of_int t"
    using assms by (simp add: x_def n_def d_def)
  have x1: "x \<le> 1" using assms by (simp add: x)
  obtain m1 e1 where ne: "nearest n d = (m1, e1)" by (cases "nearest n d")
  define q where "q = val (m1, e1)"
  have "x \<le> 2 powr real_of_int 0" using x1 by simp
  from nearest_err_bound [OF d this [unfolded x_def]]
  have qx: "\<bar>q - x\<bar> \<le> 1 / 2 ^ 53"
    by (simp only: ne q_def [symmetric] x_def [symmetric] pow_m53)
  have m1: "0 \<le> m1" using nearest_err [OF d, of n] by (simp add: ne)
  have dv: "f64_div c t = F64 m1 e1"
    using assms by (simp add: f64_div_def f64_of_ratio_def n_def [symmetric] d_def [symmetric] ne)
  define n2 where "n2 = (if 0 \<le> e1 then nat \<bar>m1\<bar> * 100 * 2 ^ nat e1 else nat \<bar>m1\<bar> * 100)"
  define d2 :: nat where "d2 = (if 0 \<le> e1 then 1 else 2 ^ nat (- e1))"
  have d2: "0 < d2" by (simp add: d2_def)
  have ratio: "real n2 / real d2 = 100 * q"
  proof (cases "0 \<le> e1")
    case True
    then show ?thesis using m1 by (simp add: n2_def d2_def q_def val_def p2_nonneg)
  next
    case False
    then show ?thesis using m1 by (simp add: n2_def d2_def q_def val_def p2_neg)
  qed
  obtain m2 e2 where ne2: "nearest n2 d2 = (m2, e2)" by (cases "nearest n2 d2")
  define y where "y = val (m2, e2)"
  have "f64_times100 (F64 m1 e1) = f64_of_ratio (m1 < 0) n2 d2"
    by (simp add: n2_def d2_def)
  then have tm: "f64_times100 (F64 m1 e1) = F64 m2 e2"
    using m1 by (simp add: f64_of_ratio_def ne2)
  have "q \<le> x + 1 / 2 ^ 53" using qx by linarith
  then have "100 * q \<le> 128" using x1 by simp
  then have "real n2 / real d2 \<le> 2 powr real_of_int 7" by (simp add: ratio)
  from nearest_err_bound [OF d2 this]
  have yq: "\<bar>y - 100 * q\<bar> \<le> 1 / 2 ^ 46"
    by (simp only: ne2 y_def [symmetric] ratio pow_m46)
  have b1: "y - 100 * q \<le> 1 / 2 ^ 46" "100 * q - y \<le> 1 / 2 ^ 46"
    using yq by linarith+
  have b2: "q - x \<le> 1 / 2 ^ 53" "x - q \<le> 1 / 2 ^ 53"
    using qx by linarith+
  have "y - 100 * x \<le> 1 / 2 ^ 46 + 100 * (1 / 2 ^ 53)"
       "100 * x - y \<le> 1 / 2 ^ 46 + 100 * (1 / 2 ^ 53)"
    using b1 b2 by linarith+
  then have "\<bar>y - 100 * x\<bar> \<le> 1 / 2 ^ 46 + 100 * (1 / 2 ^ 53)"
    by linarith
  also have "\<dots> < 1 / 2 ^ 45" by simp
  finally have close: "\<bar>y - 100 * real_of_int c / real_of_int t\<bar> < 1 / 2 ^ 45"
    by (simp add: x)
  have "percentage c t = F64 \<lfloor>y + 1 / 2\<rfloor> 0"
    using assms(3) by (simp add: percentage_def dv tm f64_round_val y_def del: f64_round.simps f64_times100.simps)
  with close show ?thesis by blast
qed

lemma floor_close:
  fixes y X :: real and A B :: int
  assumes "\<bar>y - X\<bar> < dl" and "X + 1 / 2 = real_of_int A / real_of_int B" and "0 < B"
    and "dl \<le> 1 / real_of_int B"
  shows "(A mod B \<noteq> 0 \<longrightarrow> \<lfloor>y + 1 / 2\<rfloor> = A div B)
         \<and> (A mod B = 0 \<longrightarrow> \<lfloor>y + 1 / 2\<rfloor> = A div B \<or> \<lfloor>y + 1 / 2\<rfloor> = A div B - 1)"
proof -
  define R r where "R = A div B" and "r = A mod B"
  have A: "A = R * B + r" by (simp add: R_def r_def)
  have r: "0 \<le> r" "r < B" using assms(3) by (simp_all add: r_def)
  have AB: "real_of_int A / real_of_int B = real_of_int R + real_of_int r / real_of_int B"
    using assms(3) by (simp add: A field_simps)
  define z where "z = y + 1 / 2"
  have z: "real_of_int R + real_of_int r / real_of_int B - dl < z"
          "z < real_of_int R + real_of_int r / real_of_int B + dl"
    using assms(1,2) by (simp_all add: z_def AB [symmetric] abs_less_iff)
  have dl1: "dl \<le> 1"
  proof -
    have "1 / real_of_int B \<le> 1" using assms(3) by simp
    with assms(4) show ?thesis by linarith
  qed
  have nz: "\<lfloor>z\<rfloor> = R" if "r \<noteq> 0"
  proof -
    have "1 \<le> r" "r \<le> B - 1" using that r by simp_all
    then have lo: "1 / real_of_int B \<le> real_of_int r / real_of_int B"
      and hi: "real_of_int r / real_of_int B \<le> 1 - 1 / real_of_int B"
      using assms(3) by (simp_all add: field_simps)
    have "real_of_int R \<le> z" "z < real_of_int R + 1"
      using z lo hi assms(4) by linarith+
    then show ?thesis by (simp add: floor_unique)
  qed
  have ze: "\<lfloor>z\<rfloor> = R \<or> \<lfloor>z\<rfloor> = R - 1" if "r = 0"
  proof -
    have lo: "real_of_int R - 1 < z" and hi: "z < real_of_int R + 1"
      using z dl1 that by simp_all
    have fl: "real_of_int \<lfloor>z\<rfloor> \<le> z" "z < real_of_int \<lfloor>z\<rfloor> + 1"
      using floor_correct [of z] by simp_all
    have "real_of_int \<lfloor>z\<rfloor> < real_of_int R + 1"
      using fl(1) hi by linarith
    then have "real_of_int \<lfloor>z\<rfloor> < real_of_int (R + 1)" by simp
    then have a: "\<lfloor>z\<rfloor> < R + 1" by (simp only: of_int_less_iff)
    have "real_of_int R - 1 < real_of_int \<lfloor>z\<rfloor> + 1"
      using fl(2) lo by linarith
    then have "real_of_int (R - 1) < real_of_int (\<lfloor>z\<rfloor> + 1)" by simp
    then have b: "R - 1 < \<lfloor>z\<rfloor> + 1" by (simp only: of_int_less_iff)
    from a b show ?thesis by linarith
  qed
  show ?thesis
    using nz ze by (auto simp: z_def R_def r_def)
qed

lemma spec_percentage_div: "0 < t \<Longrightarrow> spec_percentage c t = (200 * c + t) div (2 * t)"
proof -
  assume t: "0 < t"
  have "100 * real_of_int c / real_of_int t + 1 / 2
        = real_of_int (200 * c + t) / real_of_int (2 * t)"
    using t by (simp add: field_simps)
  then have "\<lfloor>100 * real_of_int c / real_of_int t + 1 / 2\<rfloor> = (200 * c + t) div (2 * t)"
    by (simp only: floor_divide_of_int_eq)
  then show ?thesis using t by (simp add: spec_percentage_def round_def)
qed

lemma percentage_round:
  assumes "0 \<le> c" "c \<le> t" "0 < t" "t \<le> 2 ^ 44"
  shows "\<exists>k. percentage c t = F64 k 0
             \<and> ((200 * c + t) mod (2 * t) \<noteq> 0 \<longrightarrow> k = spec_percentage c t)
             \<and> ((200 * c + t) mod (2 * t) = 0 \<longrightarrow>
                  k = spec_percentage c t \<or> k = spec_percentage c t - 1)"
proof -
  obtain y where y: "percentage c t = F64 \<lfloor>y + 1 / 2\<rfloor> 0"
    and close: "\<bar>y - 100 * real_of_int c / real_of_int t\<bar> < 1 / 2 ^ 45"
    using percentage_close [OF assms(1-3)] by blast
  have half: "100 * real_of_int c / real_of_int t + 1 / 2
        = real_of_int (200 * c + t) / real_of_int (2 * t)"
    using assms(3) by (simp add: field_simps)
  have B: "0 < 2 * t" using assms(3) by simp
  have "real_of_int (2 * t) \<le> 2 ^ 45"
  proof -
    have "2 * t \<le> 2 ^ 45" using assms(4) by simp
    then have "real_of_int (2 * t) \<le> real_of_int (2 ^ 45)" by (simp only: of_int_le_iff)
    then show ?thesis by simp
  qed
  then have dl: "1 / 2 ^ 45 \<le> 1 / real_of_int (2 * t)"
    using B by (simp add: field_simps)
  from floor_close [OF close half B dl] y
  show ?thesis
    by (simp add: spec_percentage_div [OF assms(3)])
qed

lemma get_bumpStat:
  "get_or_0 (bumpStat k al) k'
   = get_or_0 al k' + (if k = k' \<and> k' \<in> fst ` set al then 1 else 0)"
proof (cases "map_of al k")
  case None
  then show ?thesis
    by (auto simp: bumpStat_def hasOwnProperty_def map_of_eq_None_iff)
next
  case (Some v)
  then have "k \<in> fst ` set al"
    by (metis map_of_eq_None_iff option.distinct(1))
  then show ?thesis using Some
    by (simp add: bumpStat_def hasOwnProperty_def get_or_0_def update_conv')
qed

lemma get_foldl_bump:
  "get_or_0 (foldl (\<lambda>stats answer. bumpStat (f answer) stats) al answers) k
   = get_or_0 al k
     + (if k \<in> fst ` set al then int (length (filter (\<lambda>a. f a = k) answers)) else 0)"
  by (induction answers arbitrary: al) (simp_all add: keys_bumpStat get_bumpStat)

text \<open>The counter of an option of the question is the number of stored rows that name it.\<close>

lemma tally_count:
  assumes "oid \<in> o_id ` set (options q)"
  shows "get_or_0 (fst (tally qi q answers)) (uniqueKey qi oid)
         = int (length (filter (\<lambda>a. option_id a = oid) answers))"
proof -
  have k: "uniqueKey qi oid \<in> fst ` set (freshStats qi q)"
    using assms by (simp add: keys_freshStats)
  have z: "get_or_0 (freshStats qi q) (uniqueKey qi oid) = 0"
    by (simp add: get_zero values_freshStats)
  show ?thesis
    by (simp add: tally_def get_foldl_bump k z uniqueKey_inj)
qed

lemma unguarded_total_0: "f64_round (f64_times100 (f64_div c 0)) \<noteq> F64 m e"
  by (simp add: f64_div_def)

lemma percentage_23_40: "percentage 23 40 = F64 57 0"
  by (simp add: percentage_def f64_div_def f64_of_ratio_def nearest_def binexp_def pow2_le_def
      round_even_def bits.simps Let_def)

lemma select_forty: "select_answers (xy_host forty_answers) 0 = forty_answers"
  by (simp add: select_answers_def xy_host_def demo_host_def forty_answers_def mk_answer_def)

lemma refresh_forty:
  "totalAnswers (refreshAnswerStats 0 (xy_host forty_answers)) = 40"
  "answerCount (refreshAnswerStats 0 (xy_host forty_answers))
     \<lparr>o_id = ''X'', o_text = ''x'', o_is_correct = True\<rparr> = 23"
proof -
  let ?s = "refreshAnswerStats 0 (xy_host forty_answers)"
  have st: "tally_state ?s = tally 0 xy_question forty_answers"
    by (simp add: refresh_xy_host select_forty)
  have len: "length forty_answers = 40"
    by (simp add: forty_answers_def)
  have lenX: "length (filter (\<lambda>a. option_id a = ''X'') forty_answers) = 23"
    by (simp add: forty_answers_def mk_answer_def)
  have "totalAnswers ?s = snd (tally_state ?s)"
    by (simp add: tally_state_def)
  then show "totalAnswers ?s = 40"
    by (simp add: st tally_total len)
  have x: "''X'' \<in> o_id ` set (options xy_question)"
    by (simp add: xy_question_def)
  have "answerStats ?s = fst (tally_state ?s)"
    by (simp add: tally_state_def)
  then have "answerStats ?s = fst (tally 0 xy_question forty_answers)"
    by (simp add: st)
  then show "answerCount ?s \<lparr>o_id = ''X'', o_text = ''x'', o_is_correct = True\<rparr> = 23"
    using tally_count [OF x, of 0 forty_answers]
    by (simp add: answerCount_def refresh_index xy_host_fields lenX)
qed

text \<open>
  C6 (as amended). On the results view the percentage of an option is 0 when the total
  is 0: the division, which alone would not give a number, does not take place. For a
  positive total it is \<open>Math.round((count / total) * 100)\<close> in double arithmetic. For a
  count between 0 and the total, and a total of at most \<open>2 ^ 44\<close>, that is an integer
  which equals \<open>round(100 * count / total)\<close> whenever \<open>100 * count / total\<close> does not lie
  exactly halfway between two integers, and which at a halfway value is that number or
  one less. After a refresh of a question that nobody answered, the total is 0 and every
  option shows a count of 0 and 0 percent.
\<close>

theorem displayed_percentage_rounds:
  "(totalAnswers s \<le> 0 \<longrightarrow> displayedPercentage s opt = F64 0 0)
   \<and> f64_round (f64_times100 (f64_div (answerCount s opt) 0)) \<noteq> F64 0 0
   \<and> (0 \<le> answerCount s opt \<and> answerCount s opt \<le> totalAnswers s
        \<and> 0 < totalAnswers s \<and> totalAnswers s \<le> 2 ^ 44 \<longrightarrow>
        (\<exists>k. displayedPercentage s opt = F64 k 0
              \<and> (k = spec_percentage (answerCount s opt) (totalAnswers s)
                   \<or> k = spec_percentage (answerCount s opt) (totalAnswers s) - 1)
              \<and> ((200 * answerCount s opt + totalAnswers s) mod (2 * totalAnswers s) \<noteq> 0
                   \<longrightarrow> k = spec_percentage (answerCount s opt) (totalAnswers s))))
   \<and> (0 \<le> currentQuestionIndex s
        \<and> nth_opt (questions s) (currentQuestionIndex s) = Some q
        \<and> select_answers s (currentQuestionIndex s) = [] \<longrightarrow>
        totalAnswers (refreshAnswerStats (currentQuestionIndex s) s) = 0
        \<and> answerCount (refreshAnswerStats (currentQuestionIndex s) s) opt = 0
        \<and> displayedPercentage (refreshAnswerStats (currentQuestionIndex s) s) opt = F64 0 0)"
proof -
  have zero: "displayedPercentage s opt = F64 0 0" if "totalAnswers s \<le> 0"
    using that by (simp add: displayedPercentage_def percentage_def)
  have pos: "\<exists>k. displayedPercentage s opt = F64 k 0
              \<and> (k = spec_percentage (answerCount s opt) (totalAnswers s)
                   \<or> k = spec_percentage (answerCount s opt) (totalAnswers s) - 1)
              \<and> ((200 * answerCount s opt + totalAnswers s) mod (2 * totalAnswers s) \<noteq> 0
                   \<longrightarrow> k = spec_percentage (answerCount s opt) (totalAnswers s))"
    if h: "0 \<le> answerCount s opt" "answerCount s opt \<le> totalAnswers s"
          "0 < totalAnswers s" "totalAnswers s \<le> 2 ^ 44"
  proof -
    let ?c = "answerCount s opt" and ?t = "totalAnswers s"
    from percentage_round [OF h] obtain k where
      kk: "percentage ?c ?t = F64 k 0
           \<and> ((200 * ?c + ?t) mod (2 * ?t) \<noteq> 0 \<longrightarrow> k = spec_percentage ?c ?t)
           \<and> ((200 * ?c + ?t) mod (2 * ?t) = 0 \<longrightarrow>
                k = spec_percentage ?c ?t \<or> k = spec_percentage ?c ?t - 1)" ..
    have near: "k = spec_percentage ?c ?t \<or> k = spec_percentage ?c ?t - 1"
    proof (cases "(200 * ?c + ?t) mod (2 * ?t) = 0")
      case True
      with kk show ?thesis by simp
    next
      case False
      with kk show ?thesis by simp
    qed
    have "displayedPercentage s opt = F64 k 0
          \<and> (k = spec_percentage ?c ?t \<or> k = spec_percentage ?c ?t - 1)
          \<and> ((200 * ?c + ?t) mod (2 * ?t) \<noteq> 0 \<longrightarrow> k = spec_percentage ?c ?t)"
      using kk near by (simp add: displayedPercentage_def)
    then show ?thesis ..
  qed
  have none: "totalAnswers (refreshAnswerStats (currentQuestionIndex s) s) = 0
              \<and> answerCount (refreshAnswerStats (currentQuestionIndex s) s) opt = 0
              \<and> displayedPercentage (refreshAnswerStats (currentQuestionIndex s) s) opt = F64 0 0"
    if h: "0 \<le> currentQuestionIndex s"
          "nth_opt (questions s) (currentQuestionIndex s) = Some q"
          "select_answers s (currentQuestionIndex s) = []"
  proof -
    let ?s = "refreshAnswerStats (currentQuestionIndex s) s"
    have "tally_state ?s = (freshStats (currentQuestionIndex s) q, 0)"
      using h refresh_on_screen [of "currentQuestionIndex s" s q] by (simp add: tally_def)
    then have st: "answerStats ?s = freshStats (currentQuestionIndex s) q"
      and tot: "totalAnswers ?s = 0"
      by (simp_all add: tally_state_def)
    have cnt: "answerCount ?s opt = 0"
      by (simp add: answerCount_def st get_zero values_freshStats)
    show ?thesis
      by (simp add: tot cnt displayedPercentage_def percentage_def)
  qed
  show ?thesis
    using zero pos none unguarded_total_0 [of "answerCount s opt" 0 0] by blast
qed

theorem displayed_percentage_rounds_witness:
  "answerCount (refreshAnswerStats 0 (xy_host xxy_answers))
     \<lparr>o_id = ''X'', o_text = ''x'', o_is_correct = True\<rparr> = 2
   \<and> totalAnswers (refreshAnswerStats 0 (xy_host xxy_answers)) = 3
   \<and> displayedPercentage (refreshAnswerStats 0 (xy_host xxy_answers))
       \<lparr>o_id = ''X'', o_text = ''x'', o_is_correct = True\<rparr> = F64 67 0
   \<and> nth_opt (questions (xy_host [])) 0 = Some xy_question
   \<and> select_answers (xy_host []) 0 = []
   \<and> displayedPercentage (refreshAnswerStats 0 (xy_host []))
       \<lparr>o_id = ''X'', o_text = ''x'', o_is_correct = True\<rparr> = F64 0 0"
proof -
  let ?s = "refreshAnswerStats 0 (xy_host xxy_answers)"
  let ?x = "\<lparr>o_id = ''X'', o_text = ''x'', o_is_correct = True\<rparr>"
  have "tally_state ?s = tally 0 xy_question xxy_answers"
    by (simp add: refresh_xy_host select_xy_host)
  then have st: "answerStats ?s = [(''q0_X'', 2), (''q0_Y'', 1)]" and tot: "totalAnswers ?s = 3"
    by (simp_all add: tally_state_def tally_xxy)
  have cur: "currentQuestionIndex ?s = 0"
    by (simp add: refresh_index xy_host_fields)
  have cnt: "answerCount ?s ?x = 2"
    by (simp add: answerCount_def st cur uniqueKey_def show_int_0 get_or_0_def)
  have sp: "spec_percentage 2 3 = 67"
    by (simp add: spec_percentage_div)
  have e: "nth_opt (questions (xy_host [])) 0 = Some xy_question
           \<and> select_answers (xy_host []) 0 = [] \<and> currentQuestionIndex (xy_host []) = 0"
    by (simp add: xy_host_fields nth_opt_xy select_xy_host)
  show ?thesis
    using displayed_percentage_rounds [of ?s ?x xy_question]
          displayed_percentage_rounds [of "xy_host []" ?x xy_question] e
    by (simp add: tot cnt sp)
qed

text \<open>
  C6 (as stated) fails. Forty rows are stored for the question, 23 of them for \<open>X\<close>.
  After the refresh the results view shows 57 percent for \<open>X\<close>: the double quotient
  \<open>23 / 40\<close> lies just below 0.575 and its product with 100 just below 57.5. The
  specification's \<open>round(100 * 23 / 40)\<close> is 58.
\<close>

theorem displayed_percentage_double_counterexample:
  "answerCount (refreshAnswerStats 0 (xy_host forty_answers))
     \<lparr>o_id = ''X'', o_text = ''x'', o_is_correct = True\<rparr> = 23
   \<and> totalAnswers (refreshAnswerStats 0 (xy_host forty_answers)) = 40
   \<and> displayedPercentage (refreshAnswerStats 0 (xy_host forty_answers))
       \<lparr>o_id = ''X'', o_text = ''x'', o_is_correct = True\<rparr> = F64 57 0
   \<and> spec_percentage 23 40 = 58"
  by (simp add: refresh_forty displayedPercentage_def percentage_23_40 spec_percentage_div)

section \<open>Timer and question progression: theorems\<close>

lemma tick_stopped: "timerRef s = None \<Longrightarrow> tick s = s"
  by (simp add: tick_def)

lemma ticks_stopped: "timerRef s = None \<Longrightarrow> (tick ^^ k) s = s"
  by (induction k) (simp_all add: tick_stopped)

lemma tick_running:
  assumes "timerRef s = Some \<lparr>t_questionIndex = qi, t_currentTime = Some n\<rparr>" and "1 < n"
  shows "timerRef (tick s) = Some \<lparr>t_questionIndex = qi, t_currentTime = Some (n - 1)\<rparr>
         \<and> timeLeft (tick s) = Some (n - 1)"
  using assms by (simp add: tick_def Let_def)

lemma tick_shown:
  "showResults (tick s) = showResults s \<and> gameEnded (tick s) = gameEnded s"
  by (simp add: tick_def Let_def split: option.splits)

lemma ticks_shown:
  "showResults ((tick ^^ k) s) = showResults s \<and> gameEnded ((tick ^^ k) s) = gameEnded s"
  by (induction k) (simp_all add: tick_shown)

lemma tick_expiry:
  assumes "timerRef s = Some \<lparr>t_questionIndex = qi, t_currentTime = Some n\<rparr>" and "n \<le> 1"
  shows "timerRef (tick s) = None \<and> timeLeft (tick s) = Some (n - 1)
         \<and> isCalculatingResults (tick s)"
  using assms by (simp add: tick_def Let_def)

lemma tick_keeps:
  "questions (tick s) = questions s \<and> db_session (tick s) = db_session s
   \<and> players (tick s) = players s \<and> currentQuestionIndex (tick s) = currentQuestionIndex s"
  by (simp add: tick_def Let_def split: option.splits)

lemma ticks_keep:
  "questions ((tick ^^ k) s) = questions s \<and> db_session ((tick ^^ k) s) = db_session s
   \<and> players ((tick ^^ k) s) = players s
   \<and> currentQuestionIndex ((tick ^^ k) s) = currentQuestionIndex s"
  by (induction k) (simp_all add: tick_keeps)

lemma ticks_running:
  assumes "timerRef s = Some \<lparr>t_questionIndex = qi, t_currentTime = Some n\<rparr>"
    and "timeLeft s = Some n"
  shows "int k < n \<Longrightarrow>
         timerRef ((tick ^^ k) s) = Some \<lparr>t_questionIndex = qi, t_currentTime = Some (n - int k)\<rparr>
         \<and> timeLeft ((tick ^^ k) s) = Some (n - int k)"
proof (induction k)
  case 0
  show ?case using assms by simp
next
  case (Suc k)
  then have run: "timerRef ((tick ^^ k) s)
                  = Some \<lparr>t_questionIndex = qi, t_currentTime = Some (n - int k)\<rparr>"
    by simp
  have "1 < n - int k" using Suc.prems by simp
  with run show ?case
    using tick_running [of "(tick ^^ k) s" qi "n - int k"] by (simp add: algebra_simps)
qed

lemma ticks_expire:
  assumes "timerRef s = Some \<lparr>t_questionIndex = qi, t_currentTime = Some n\<rparr>"
    and "timeLeft s = Some n" and "0 < n"
  shows "timerRef ((tick ^^ nat n) s) = None \<and> timeLeft ((tick ^^ nat n) s) = Some 0
         \<and> isCalculatingResults ((tick ^^ nat n) s)"
proof -
  obtain k where k: "nat n = Suc k"
    using assms(3) by (metis Suc_pred' zero_less_nat_eq)
  then have kn: "int k < n" and one: "n - int k = 1"
    by linarith+
  have run: "timerRef ((tick ^^ k) s) = Some \<lparr>t_questionIndex = qi, t_currentTime = Some 1\<rparr>"
    using ticks_running [OF assms(1,2) kn] one by simp
  show ?thesis
    using tick_expiry [OF run] by (simp add: k)
qed

lemma startTimer_armed:
  assumes "nth_opt (questions s) qi = Some q"
  shows "timerRef (startTimer qi (Some sec) s)
           = Some \<lparr>t_questionIndex = qi, t_currentTime = Some sec\<rparr>
         \<and> timeLeft (startTimer qi (Some sec) s) = Some sec
         \<and> \<not> showResults (startTimer qi (Some sec) s)"
  using assms by (simp add: startTimer_def startTimerIn_def renderOf_def Let_def)

lemma startTimer_no_question:
  assumes "nth_opt (questions s) qi = None"
  shows "startTimer qi sec s = s\<lparr>timerRef := None, pollingFor := None\<rparr>"
  using assms by (simp add: startTimer_def startTimerIn_def renderOf_def Let_def)

lemma startTimer_keeps:
  "questions (startTimer qi sec s) = questions s \<and> db_session (startTimer qi sec s) = db_session s"
  by (simp add: startTimer_def startTimerIn_def renderOf_def Let_def split: option.splits)

text \<open>
  C2 (as amended). The timer is a relative countdown: \<open>startTimer\<close> for an existing
  question sets the remaining time to the given number of seconds, and each firing of
  the one-second interval takes one off, whatever the clock says. So after \<open>k\<close> firings
  (\<open>k\<close> below the limit) the remaining time is the limit minus \<open>k\<close>, which is the
  specification's \<open>max(0, deadline - now)\<close> when the \<open>k\<close>-th firing happens \<open>k\<close> seconds
  after the start. The firing that reaches 0 stops the interval and starts the
  calculation of the results; later firings do not happen.
\<close>

theorem countdown_is_relative:
  assumes "nth_opt (questions s) qi = Some q" and "0 < sec"
  shows "(int k < sec \<longrightarrow>
            timeLeft ((tick ^^ k) (startTimer qi (Some sec) s)) = Some (sec - int k)
            \<and> timeLeft ((tick ^^ k) (startTimer qi (Some sec) s))
              = Some (spec_remaining t0 sec (t0 + int k))
            \<and> timerRef ((tick ^^ k) (startTimer qi (Some sec) s)) \<noteq> None)
         \<and> timeLeft ((tick ^^ nat sec) (startTimer qi (Some sec) s)) = Some 0
         \<and> timerRef ((tick ^^ nat sec) (startTimer qi (Some sec) s)) = None
         \<and> isCalculatingResults ((tick ^^ nat sec) (startTimer qi (Some sec) s))
         \<and> (tick ^^ (nat sec + j)) (startTimer qi (Some sec) s)
           = (tick ^^ nat sec) (startTimer qi (Some sec) s)"
proof -
  let ?s = "startTimer qi (Some sec) s"
  have armed: "timerRef ?s = Some \<lparr>t_questionIndex = qi, t_currentTime = Some sec\<rparr>"
    and left: "timeLeft ?s = Some sec"
    using startTimer_armed [OF assms(1)] by simp_all
  have run: "timeLeft ((tick ^^ k) ?s) = Some (sec - int k)
             \<and> timeLeft ((tick ^^ k) ?s) = Some (spec_remaining t0 sec (t0 + int k))
             \<and> timerRef ((tick ^^ k) ?s) \<noteq> None" if "int k < sec"
    using ticks_running [OF armed left that] that by (simp add: spec_remaining_def)
  have ex: "timerRef ((tick ^^ nat sec) ?s) = None \<and> timeLeft ((tick ^^ nat sec) ?s) = Some 0
            \<and> isCalculatingResults ((tick ^^ nat sec) ?s)"
    by (rule ticks_expire [OF armed left assms(2)])
  have "(tick ^^ (j + nat sec)) ?s = (tick ^^ j) ((tick ^^ nat sec) ?s)"
    by (simp add: funpow_add)
  also have "\<dots> = (tick ^^ nat sec) ?s"
    using ex by (simp add: ticks_stopped)
  finally have after: "(tick ^^ (nat sec + j)) ?s = (tick ^^ nat sec) ?s"
    by (simp add: add.commute)
  show ?thesis
    using run ex after by blast
qed

theorem countdown_is_relative_witness:
  "nth_opt (questions one_question_lobby) 0 = Some xy_question
   \<and> timeLeft ((tick ^^ 10) (startTimer 0 (Some 30) one_question_lobby)) = Some 20
   \<and> spec_remaining 1000 30 1010 = 20
   \<and> timeLeft ((tick ^^ 30) (startTimer 0 (Some 30) one_question_lobby)) = Some 0
   \<and> timerRef ((tick ^^ 30) (startTimer 0 (Some 30) one_question_lobby)) = None"
proof -
  have q: "nth_opt (questions one_question_lobby) 0 = Some xy_question"
    by (simp add: one_question_lobby_def nth_opt_def)
  have pos: "(0::int) < 30" by simp
  show ?thesis
    using countdown_is_relative [OF q pos, of 10 1000 0] q
    by (simp add: spec_remaining_def)
qed

lemma startGame_one:
  "startGame one_question_lobby
   = startTimer 0 (Some 30)
       (one_question_lobby\<lparr>timerRef := None, pollingFor := None,
          db_session := \<lparr>status = ''active'', current_question_index = Some 0\<rparr>,
          currentQuestionIndex := 0, showResults := False, isCalculatingResults := False,
          answerStats := [(''X'', 0), (''Y'', 0)], totalAnswers := 0, sent := [GameStarted]\<rparr>)"
  by (simp add: startGame_def one_question_lobby_def xy_question_def demo_host_def)

text \<open>
  C2 (as stated) fails. A game with one 30-second question is started and the interval
  fires ten times: 20 seconds remain, as with a deadline. The host page is then loaded
  again: the session row still names question 0, but \<open>startTimer\<close> is called with the
  time limit in the place of the question index, finds no question there and returns.
  The reloaded screen shows 0 seconds and no interval runs.
\<close>

theorem restart_loses_timer_counterexample:
  "timeLeft ((tick ^^ 10) (startGame one_question_lobby)) = Some 20
   \<and> spec_remaining 0 30 10 = 20
   \<and> current_question_index (db_session ((tick ^^ 10) (startGame one_question_lobby))) = Some 0
   \<and> timeLeft (fetchGameData ((tick ^^ 10) (startGame one_question_lobby))) = Some 0
   \<and> timerRef (fetchGameData ((tick ^^ 10) (startGame one_question_lobby))) = None"
proof -
  let ?g = "startGame one_question_lobby"
  let ?r = "(tick ^^ 10) ?g"
  have qs: "questions ?g = [xy_question]"
    and db: "db_session ?g = \<lparr>status = ''active'', current_question_index = Some 0\<rparr>"
    by (simp_all add: startGame_one startTimer_keeps) (simp_all add: one_question_lobby_def)
  have armed: "timerRef ?g = Some \<lparr>t_questionIndex = 0, t_currentTime = Some 30\<rparr>"
    and left: "timeLeft ?g = Some 30"
    unfolding startGame_one
    by (simp_all add: startTimer_def startTimerIn_def renderOf_def Let_def)
       (simp_all add: one_question_lobby_def nth_opt_def)
  have a: "timeLeft ?r = Some 20"
    using ticks_running [OF armed left, of 10] by simp
  have qr: "questions ?r = [xy_question]"
    and dr: "db_session ?r = \<lparr>status = ''active'', current_question_index = Some 0\<rparr>"
    by (simp_all add: ticks_keep qs db)
  have b: "timeLeft (fetchGameData ?r) = Some 0 \<and> timerRef (fetchGameData ?r) = None"
    by (simp add: fetchGameData_def Let_def qr dr nth_opt_xy startTimerIn_def mountRender_def
        nth_opt_def)
  show ?thesis
    using a b by (simp add: dr spec_remaining_def)
qed

lemma nextQuestionIn_next:
  assumes "seenIndex r + 1 < int (length (seenQuestions r))"
  shows "nextQuestionIn r s
         = s\<lparr>pollingFor := None, timerRef := None,
              db_session := (db_session s)\<lparr>current_question_index := Some (seenIndex r + 1)\<rparr>,
              showResults := False, isCalculatingResults := False, timeLeft := Some 0,
              currentQuestionIndex := seenIndex r + 1,
              sent := sent s @ [QuestionChanged (seenIndex r + 1)]\<rparr>"
  using assms by (simp add: nextQuestionIn_def Let_def)

lemma nextQuestionIn_last:
  assumes "int (length (seenQuestions r)) \<le> seenIndex r + 1"
  shows "nextQuestionIn r s
         = (calculatePlayerCompletionTimes (s\<lparr>timerRef := None, pollingFor := None\<rparr>))
             \<lparr>db_session := \<lparr>status = ''completed'', current_question_index = None\<rparr>,
              sent := sent s @ [GameEnded], gameEnded := True\<rparr>"
  using assms by (simp add: nextQuestionIn_def Let_def)

lemma nextQuestionIn_last_fields:
  assumes "int (length (seenQuestions r)) \<le> seenIndex r + 1"
  shows "gameEnded (nextQuestionIn r s)
         \<and> db_session (nextQuestionIn r s)
           = \<lparr>status = ''completed'', current_question_index = None\<rparr>
         \<and> currentQuestionIndex (nextQuestionIn r s) = currentQuestionIndex s
         \<and> timerRef (nextQuestionIn r s) = None
         \<and> sent (nextQuestionIn r s) = sent s @ [GameEnded]"
  by (simp add: nextQuestionIn_last [OF assms] calculatePlayerCompletionTimes_def Let_def)

lemma nextQuestionIn_next_again:
  assumes "seenIndex r + 1 < int (length (seenQuestions r))"
  shows "nextQuestionIn r (nextQuestionIn r s)
         = (nextQuestionIn r s)\<lparr>sent := sent (nextQuestionIn r s)
                                         @ [QuestionChanged (seenIndex r + 1)]\<rparr>"
  by (simp add: nextQuestionIn_next [OF assms])

lemma nextQuestionIn_last_again:
  assumes "int (length (seenQuestions r)) \<le> seenIndex r + 1"
  shows "nextQuestionIn r (nextQuestionIn r s)
         = (nextQuestionIn r s)\<lparr>sent := sent (nextQuestionIn r s) @ [GameEnded]\<rparr>"
  by (simp add: nextQuestionIn_last [OF assms] calculatePlayerCompletionTimes_def Let_def
      comp_def)

lemma timeUpResults_fields:
  "questions (timeUpResults r qi s) = questions s"
  "currentQuestionIndex (timeUpResults r qi s) = currentQuestionIndex s"
  "timeLeft (timeUpResults r qi s) = timeLeft s"
  "gameEnded (timeUpResults r qi s) = gameEnded s"
  "showResults (timeUpResults r qi s)"
  by (simp_all add: timeUpResults_def refreshAnswerStatsIn_def Let_def
      split: option.splits prod.splits)

lemma startGame_three:
  "timerRef (startGame three_question_lobby)
     = Some \<lparr>t_questionIndex = 0, t_currentTime = Some 30\<rparr>"
  "timeLeft (startGame three_question_lobby) = Some 30"
  "questions (startGame three_question_lobby) = [xy_question, xy_question, xy_question]"
  "currentQuestionIndex (startGame three_question_lobby) = 0"
  "gameEnded (startGame three_question_lobby) = False"
  by (simp_all add: startGame_def three_question_lobby_def demo_host_def startTimer_def
      startTimerIn_def renderOf_def nth_opt_def xy_question_def Let_def)

lemma first_results_fields:
  "currentQuestionIndex first_results = 0"
  "questions first_results = [xy_question, xy_question, xy_question]"
  "nextButtonShown first_results"
proof -
  let ?g = "startGame three_question_lobby"
  have left: "timeLeft ((tick ^^ 30) ?g) = Some 0"
    using ticks_expire [of ?g 0 30] by (simp add: startGame_three)
  show "currentQuestionIndex first_results = 0"
    by (simp add: first_results_def timeUpResults_fields ticks_keep startGame_three)
  show "questions first_results = [xy_question, xy_question, xy_question]"
    by (simp add: first_results_def timeUpResults_fields ticks_keep startGame_three)
  show "nextButtonShown first_results"
    by (simp add: nextButtonShown_def first_results_def timeUpResults_fields ticks_keep
        ticks_shown startGame_three left)
qed

text \<open>
  C3 (as amended). \<open>nextQuestion\<close>, called from the view of question \<open>i\<close> of \<open>N\<close>,
  moves to question \<open>i + 1\<close> when \<open>i + 1 < N\<close>: the state and the session row get the
  index \<open>i + 1\<close>, the results are hidden, \<open>question_changed\<close> is broadcast, and the timeout
  it schedules arms the timer with the time limit of the new question. Otherwise it
  completes the session: status completed, a null index in the session row,
  \<open>game_ended\<close> broadcast, the game-over screen. It checks no state and has no error
  result. A second call from the same view is carried out like the first: it computes
  the same next index, so the state and the session row stay as the first call left them
  and the index has changed once, but the broadcast is sent again. After either outcome
  the button that calls \<open>nextQuestion\<close> is not shown.
\<close>

theorem nextQuestion_moves_or_completes:
  "(currentQuestionIndex s + 1 < int (length (questions s)) \<longrightarrow>
      currentQuestionIndex (nextQuestion s) = currentQuestionIndex s + 1
      \<and> current_question_index (db_session (nextQuestion s)) = Some (currentQuestionIndex s + 1)
      \<and> status (db_session (nextQuestion s)) = status (db_session s)
      \<and> gameEnded (nextQuestion s) = gameEnded s
      \<and> \<not> showResults (nextQuestion s)
      \<and> timerRef (nextQuestion s) = None
      \<and> \<not> nextButtonShown (nextQuestion s)
      \<and> sent (nextQuestion s) = sent s @ [QuestionChanged (currentQuestionIndex s + 1)]
      \<and> nextQuestionIn (renderOf s) (nextQuestion s)
        = (nextQuestion s)\<lparr>sent := sent (nextQuestion s)
                                    @ [QuestionChanged (currentQuestionIndex s + 1)]\<rparr>
      \<and> (0 \<le> currentQuestionIndex s + 1 \<longrightarrow>
           timeLeft (nextQuestionTimeout (renderOf s) (currentQuestionIndex s + 1) (nextQuestion s))
             = Some (time_limit (questions s ! nat (currentQuestionIndex s + 1)))
           \<and> timerRef (nextQuestionTimeout (renderOf s) (currentQuestionIndex s + 1)
                         (nextQuestion s)) \<noteq> None
           \<and> \<not> showResults (nextQuestionTimeout (renderOf s) (currentQuestionIndex s + 1)
                               (nextQuestion s))))
   \<and> (int (length (questions s)) \<le> currentQuestionIndex s + 1 \<longrightarrow>
        gameEnded (nextQuestion s)
        \<and> db_session (nextQuestion s) = \<lparr>status = ''completed'', current_question_index = None\<rparr>
        \<and> currentQuestionIndex (nextQuestion s) = currentQuestionIndex s
        \<and> timerRef (nextQuestion s) = None
        \<and> \<not> nextButtonShown (nextQuestion s)
        \<and> sent (nextQuestion s) = sent s @ [GameEnded]
        \<and> nextQuestionIn (renderOf s) (nextQuestion s)
          = (nextQuestion s)\<lparr>sent := sent (nextQuestion s) @ [GameEnded]\<rparr>)"
proof -
  let ?r = "renderOf s"
  let ?i = "currentQuestionIndex s + 1"
  have r: "seenIndex ?r = currentQuestionIndex s" "seenQuestions ?r = questions s"
    by (simp_all add: renderOf_def)
  have nxt: "currentQuestionIndex (nextQuestion s) = ?i
      \<and> current_question_index (db_session (nextQuestion s)) = Some ?i
      \<and> status (db_session (nextQuestion s)) = status (db_session s)
      \<and> gameEnded (nextQuestion s) = gameEnded s
      \<and> \<not> showResults (nextQuestion s)
      \<and> timerRef (nextQuestion s) = None
      \<and> \<not> nextButtonShown (nextQuestion s)
      \<and> sent (nextQuestion s) = sent s @ [QuestionChanged ?i]
      \<and> nextQuestionIn ?r (nextQuestion s)
        = (nextQuestion s)\<lparr>sent := sent (nextQuestion s) @ [QuestionChanged ?i]\<rparr>"
    if lt: "?i < int (length (questions s))"
  proof -
    have lt': "seenIndex ?r + 1 < int (length (seenQuestions ?r))"
      using lt by (simp add: r)
    have again: "nextQuestionIn ?r (nextQuestion s)
        = (nextQuestion s)\<lparr>sent := sent (nextQuestion s) @ [QuestionChanged ?i]\<rparr>"
      using nextQuestionIn_next_again [OF lt', of s] by (simp add: nextQuestion_def r)
    show ?thesis
      using again by (simp add: nextQuestion_def nextQuestionIn_next [OF lt'] r nextButtonShown_def)
  qed
  have arm: "timeLeft (nextQuestionTimeout ?r ?i (nextQuestion s))
             = Some (time_limit (questions s ! nat ?i))
           \<and> timerRef (nextQuestionTimeout ?r ?i (nextQuestion s)) \<noteq> None
           \<and> \<not> showResults (nextQuestionTimeout ?r ?i (nextQuestion s))"
    if lt: "?i < int (length (questions s))" and ge: "0 \<le> ?i"
  proof -
    have q: "nth_opt (seenQuestions ?r) ?i = Some (questions s ! nat ?i)"
      using lt ge by (simp add: r nth_opt_def)
    show ?thesis
      by (simp add: nextQuestionTimeout_def q startTimerIn_def Let_def)
  qed
  have fin: "gameEnded (nextQuestion s)
        \<and> db_session (nextQuestion s) = \<lparr>status = ''completed'', current_question_index = None\<rparr>
        \<and> currentQuestionIndex (nextQuestion s) = currentQuestionIndex s
        \<and> timerRef (nextQuestion s) = None
        \<and> \<not> nextButtonShown (nextQuestion s)
        \<and> sent (nextQuestion s) = sent s @ [GameEnded]
        \<and> nextQuestionIn ?r (nextQuestion s)
          = (nextQuestion s)\<lparr>sent := sent (nextQuestion s) @ [GameEnded]\<rparr>"
    if ge: "int (length (questions s)) \<le> ?i"
  proof -
    have ge': "int (length (seenQuestions ?r)) \<le> seenIndex ?r + 1"
      using ge by (simp add: r)
    have again: "nextQuestionIn ?r (nextQuestion s)
          = (nextQuestion s)\<lparr>sent := sent (nextQuestion s) @ [GameEnded]\<rparr>"
      using nextQuestionIn_last_again [OF ge', of s] by (simp add: nextQuestion_def)
    show ?thesis
      using nextQuestionIn_last_fields [OF ge', of s] again
      by (simp add: nextQuestion_def nextButtonShown_def)
  qed
  show ?thesis
    using nxt arm fin by blast
qed

theorem nextQuestion_moves_or_completes_witness:
  "currentQuestionIndex first_results + 1 < int (length (questions first_results))
   \<and> nextButtonShown first_results
   \<and> currentQuestionIndex (nextQuestion first_results) = 1
   \<and> \<not> nextButtonShown (nextQuestion first_results)
   \<and> timeLeft (nextQuestionTimeout (renderOf first_results) 1 (nextQuestion first_results))
     = Some 30
   \<and> int (length (questions (xy_host []))) \<le> currentQuestionIndex (xy_host []) + 1
   \<and> gameEnded (nextQuestion (xy_host []))
   \<and> current_question_index (db_session (nextQuestion (xy_host []))) = None"
  using nextQuestion_moves_or_completes [of first_results]
    nextQuestion_moves_or_completes [of "xy_host []"]
  by (simp add: first_results_fields xy_host_fields xy_question_def)

text \<open>
  C3 (as stated) fails. On the results view of the first of three questions the button
  is pressed twice before the view is drawn again. The second call is not refused: it
  is carried out and broadcasts \<open>question_changed\<close> a second time. (Both calls set
  the index to 1.)
\<close>

theorem nextQuestion_twice_counterexample:
  "nextButtonShown first_results
   \<and> currentQuestionIndex (nextQuestion first_results) = 1
   \<and> sent (nextQuestion first_results) = sent first_results @ [QuestionChanged 1]
   \<and> currentQuestionIndex (nextQuestionIn (renderOf first_results) (nextQuestion first_results)) = 1
   \<and> sent (nextQuestionIn (renderOf first_results) (nextQuestion first_results))
     = sent first_results @ [QuestionChanged 1, QuestionChanged 1]
   \<and> nextQuestionIn (renderOf first_results) (nextQuestion first_results)
     \<noteq> nextQuestion first_results"
proof -
  let ?r = "renderOf first_results"
  have lt: "seenIndex ?r + 1 < int (length (seenQuestions ?r))"
    by (simp add: renderOf_def first_results_fields)
  have i: "seenIndex ?r + 1 = 1"
    by (simp add: renderOf_def first_results_fields)
  have one: "currentQuestionIndex (nextQuestion first_results) = 1
             \<and> sent (nextQuestion first_results) = sent first_results @ [QuestionChanged 1]"
    by (simp add: nextQuestion_def nextQuestionIn_next [OF lt] i)
  have two: "currentQuestionIndex (nextQuestionIn ?r (nextQuestion first_results)) = 1
     \<and> sent (nextQuestionIn ?r (nextQuestion first_results))
       = sent first_results @ [QuestionChanged 1, QuestionChanged 1]"
    by (simp add: nextQuestion_def nextQuestionIn_next [OF lt] i)
  have "sent (nextQuestionIn ?r (nextQuestion first_results)) \<noteq> sent (nextQuestion first_results)"
    using one two by simp
  then have "nextQuestionIn ?r (nextQuestion first_results) \<noteq> nextQuestion first_results"
    by metis
  then show ?thesis
    using one two by (simp add: first_results_fields)
qed

section \<open>Post-game summary: theorems\<close>

lemma overallAccuracy_no_answers: "allAnswers s = [] \<Longrightarrow> overallAccuracy s = Num 0"
  by (simp add: overallAccuracy_def Math_round_def)

lemma questionAccuracy_no_answers: "allAnswers s = [] \<Longrightarrow> questionAccuracy s i = Num 0"
  by (simp add: questionAccuracy_def)

lemma participationRate_zero_divisor:
  "allAnswers s = [] \<Longrightarrow> questions s = [] \<or> players s = [] \<Longrightarrow> participationRate s = NaN"
  by (auto simp: participationRate_def js_div_def)

text \<open>
  C8. The claim holds for the accuracies, which test their divisor, and fails for the
  participation rate (and the average score), which do not: in a game without players
  and answers the overall accuracy and the accuracy of the question are 0, but the
  participation rate is \<open>0 / 0\<close>, which is \<open>NaN\<close>, and so is the average score.
\<close>

theorem participation_rate_without_players:
  "length (players no_player_host) = 0
   \<and> overallAccuracy no_player_host = Num 0
   \<and> questionAccuracy no_player_host 0 = Num 0
   \<and> participationRate no_player_host = NaN
   \<and> averageScore no_player_host = NaN"
proof -
  have none: "allAnswers no_player_host = []"
    by (simp add: allAnswers_def no_player_host_def demo_host_def)
  have ps: "players no_player_host = []"
    by (simp add: no_player_host_def)
  show ?thesis
    using participationRate_zero_divisor [OF none]
    by (simp add: overallAccuracy_no_answers questionAccuracy_no_answers none ps
        averageScore_def js_div_def)
qed

section \<open>Quiz editor: theorems\<close>

lemma one_match:
  "distinct (map f xs) \<Longrightarrow> a \<in> set (map f xs) \<Longrightarrow> length (filter (\<lambda>x. f x = a) xs) = 1"
proof (induction xs)
  case Nil
  then show ?case by simp
next
  case (Cons x xs)
  show ?case
  proof (cases "f x = a")
    case True
    with Cons.prems have "a \<notin> f ` set xs" by simp
    then have "\<forall>y \<in> set xs. f y \<noteq> a" by blast
    then have "filter (\<lambda>x. f x = a) xs = []" by (simp add: filter_empty_conv)
    with True show ?thesis by simp
  next
    case False
    with Cons show ?thesis by auto
  qed
qed

lemma correctCount_marked:
  "correctCount (q\<lparr>eq_options := map (\<lambda>opt. opt\<lparr>isCorrect := (eo_id opt = oid)\<rparr>) (eq_options q)\<rparr>)
   = length (filter (\<lambda>opt. eo_id opt = oid) (eq_options q))"
  by (simp add: correctCount_def filter_map comp_def)

lemma checkQuestion_correct: "checkQuestion n q = None \<Longrightarrow> 0 < correctCount q"
  by (simp add: checkQuestion_def correctCount_def split: if_splits)

lemma checkQuestions_correct:
  "checkQuestions i qs = None \<Longrightarrow> q \<in> set qs \<Longrightarrow> 0 < correctCount q"
proof (induction qs arbitrary: i)
  case Nil
  then show ?case by simp
next
  case (Cons a qs)
  from Cons.prems(1) have a: "checkQuestion (i + 1) a = None"
    and rest: "checkQuestions (i + 1) qs = None"
    by (simp_all split: option.splits)
  show ?case
  proof (cases "q = a")
    case True
    with a show ?thesis by (simp add: checkQuestion_correct)
  next
    case False
    with Cons.prems(2) have "q \<in> set qs" by simp
    with rest show ?thesis by (rule Cons.IH)
  qed
qed

lemma validateQuiz_correct:
  "validateQuiz qd \<Longrightarrow> q \<in> set (qd_questions qd) \<Longrightarrow> 0 < correctCount q"
  by (auto simp: validateQuiz_def validation_def split: if_splits dest: checkQuestions_correct)

lemma trim_texts:
  "trim (utf16 ''Capitals'') = utf16 ''Capitals''" "trim (utf16 ''Paris?'') = utf16 ''Paris?''"
  "trim (utf16 ''yes'') = utf16 ''yes''" "trim (utf16 ''oui'') = utf16 ''oui''"
  by (simp_all add: trim_def is_space_def utf16_def)

lemma utf16_texts:
  "utf16 ''Capitals'' \<noteq> []" "utf16 ''Paris?'' \<noteq> []"
  "utf16 ''yes'' \<noteq> []" "utf16 ''oui'' \<noteq> []"
  by (simp_all add: utf16_def)

text \<open>
  C9 (as amended). In the question it is called for, \<open>setCorrectOption\<close> makes an option
  correct exactly if it has the chosen id, so with distinct option ids and the chosen id
  among them the question has exactly one correct option afterwards; every other
  question is left as it was. A quiz in which some question has no correct option is
  rejected by \<open>validateQuiz\<close>, and \<open>saveQuiz\<close> writes nothing for it. (Validation does
  not count beyond one: see the counterexample.)
\<close>

theorem correct_option_chosen_and_required:
  "(i < length (qd_questions qd) \<and> eq_id (qd_questions qd ! i) = qid \<longrightarrow>
      (\<forall>opt \<in> set (eq_options (qd_questions (setCorrectOption qid oid qd) ! i)).
          isCorrect opt \<longleftrightarrow> eo_id opt = oid)
      \<and> map eo_id (eq_options (qd_questions (setCorrectOption qid oid qd) ! i))
        = map eo_id (eq_options (qd_questions qd ! i))
      \<and> (distinct (map eo_id (eq_options (qd_questions qd ! i)))
          \<and> oid \<in> set (map eo_id (eq_options (qd_questions qd ! i)))
          \<longrightarrow> correctCount (qd_questions (setCorrectOption qid oid qd) ! i) = 1))
   \<and> (i < length (qd_questions qd) \<and> eq_id (qd_questions qd ! i) \<noteq> qid \<longrightarrow>
        qd_questions (setCorrectOption qid oid qd) ! i = qd_questions qd ! i)
   \<and> ((\<exists>q \<in> set (qd_questions qd). correctCount q = 0) \<longrightarrow>
        \<not> validateQuiz qd \<and> saveQuiz signedIn qd = None)"
proof -
  have ch: "(\<forall>opt \<in> set (eq_options (qd_questions (setCorrectOption qid oid qd) ! i)).
               isCorrect opt \<longleftrightarrow> eo_id opt = oid)
      \<and> map eo_id (eq_options (qd_questions (setCorrectOption qid oid qd) ! i))
        = map eo_id (eq_options (qd_questions qd ! i))
      \<and> (distinct (map eo_id (eq_options (qd_questions qd ! i)))
          \<and> oid \<in> set (map eo_id (eq_options (qd_questions qd ! i)))
          \<longrightarrow> correctCount (qd_questions (setCorrectOption qid oid qd) ! i) = 1)"
    if "i < length (qd_questions qd)" "eq_id (qd_questions qd ! i) = qid"
    using that one_match [of eo_id "eq_options (qd_questions qd ! i)" oid]
    by (auto simp: setCorrectOption_def correctCount_marked comp_def)
  have other: "qd_questions (setCorrectOption qid oid qd) ! i = qd_questions qd ! i"
    if "i < length (qd_questions qd)" "eq_id (qd_questions qd ! i) \<noteq> qid"
    using that by (simp add: setCorrectOption_def)
  have rej: "\<not> validateQuiz qd \<and> saveQuiz signedIn qd = None"
    if "\<exists>q \<in> set (qd_questions qd). correctCount q = 0"
  proof -
    have "\<not> validateQuiz qd"
      using that validateQuiz_correct [of qd] by fastforce
    then show ?thesis by (simp add: saveQuiz_def)
  qed
  show ?thesis
    using ch other rej by blast
qed

theorem correct_option_chosen_and_required_witness:
  "(0::nat) < length (qd_questions (ab_quiz True False))
   \<and> eq_id (qd_questions (ab_quiz True False) ! 0) = ''q1''
   \<and> distinct (map eo_id (eq_options (qd_questions (ab_quiz True False) ! 0)))
   \<and> ''b'' \<in> set (map eo_id (eq_options (qd_questions (ab_quiz True False) ! 0)))
   \<and> setCorrectOption ''q1'' ''b'' (ab_quiz True False) = ab_quiz False True
   \<and> correctCount (qd_questions (ab_quiz False True) ! 0) = 1
   \<and> correctCount (qd_questions (ab_quiz False False) ! 0) = 0
   \<and> \<not> validateQuiz (ab_quiz False False)
   \<and> saveQuiz True (ab_quiz False False) = None"
proof -
  have set_b: "setCorrectOption ''q1'' ''b'' (ab_quiz True False) = ab_quiz False True"
    by (simp add: setCorrectOption_def ab_quiz_def)
  have zero: "\<exists>q \<in> set (qd_questions (ab_quiz False False)). correctCount q = 0"
    by (simp add: ab_quiz_def correctCount_def)
  have pre: "(0::nat) < length (qd_questions (ab_quiz True False))
     \<and> eq_id (qd_questions (ab_quiz True False) ! 0) = ''q1''
     \<and> distinct (map eo_id (eq_options (qd_questions (ab_quiz True False) ! 0)))
     \<and> ''b'' \<in> set (map eo_id (eq_options (qd_questions (ab_quiz True False) ! 0)))"
    by (simp add: ab_quiz_def)
  show ?thesis
    using correct_option_chosen_and_required [of 0 "ab_quiz True False" "''q1''" "''b''" True]
      correct_option_chosen_and_required [of 0 "ab_quiz False False" "''q1''" "''b''" True]
      pre zero
    by (simp add: set_b) (simp add: ab_quiz_def correctCount_def)
qed

text \<open>
  C9 (as stated) fails. A quiz whose question has two correct options passes
  \<open>validateQuiz\<close>, and \<open>saveQuiz\<close> writes both options with \<open>is_correct\<close> set.
\<close>

theorem two_correct_options_counterexample:
  "correctCount (qd_questions (ab_quiz True True) ! 0) = 2
   \<and> validateQuiz (ab_quiz True True)
   \<and> saveQuiz True (ab_quiz True True)
     = Some [(utf16 ''Paris?'', 30, [(utf16 ''yes'', True), (utf16 ''oui'', True)])]"
  by (simp add: ab_quiz_def correctCount_def validateQuiz_def validation_def checkQuestion_def
      saveQuiz_def trim_texts utf16_texts)

end
